theory Spec2Isabelle
  imports Main "HOL-Library.Multiset" "HOL-Library.Sublist" "HOL-Library.Word"
begin

section \<open>Values of the program\<close>

text \<open>
  The converter of \<^verbatim>\<open>src/src/image_converter.py\<close> decodes uploaded files with Pillow and
  pillow\_heif, re-encodes them with Pillow and packs the results with \<^verbatim>\<open>zipfile\<close>.
  A string is the \<open>char list\<close> of the bytes of its UTF-8 encoding; a lone surrogate, which
  UTF-8 does not encode, stands as the three bytes that Python's \<^verbatim>\<open>surrogatepass\<close> gives
  it. Byte strings are lists of 8-bit words. Every \<^verbatim>\<open>logger\<close> call is left out: it returns
  nothing and changes no value of the program.
\<close>

type_synonym bytes = "8 word list"

text \<open>A Python exception (a subclass of \<^verbatim>\<open>Exception\<close>): its class name and \<^verbatim>\<open>str(e)\<close>.\<close>

datatype py_exception = PyException (exc_class: string) (exc_str: string)

text \<open>A file of \<^verbatim>\<open>st.file_uploader\<close>: a byte stream that carries a \<^verbatim>\<open>name\<close>.\<close>

record uploaded_file =
  name :: string
  stream :: bytes

text \<open>
  What \<^verbatim>\<open>pillow_heif.read_heif\<close> returns; \<^verbatim>\<open>process_heic\<close> reads its
  \<^verbatim>\<open>mode\<close>, \<^verbatim>\<open>size\<close>, \<^verbatim>\<open>data\<close> and \<^verbatim>\<open>stride\<close>.
\<close>

record heif_file =
  heif_mode :: string
  heif_size :: "nat \<times> nat"
  heif_data :: bytes
  heif_stride :: nat

text \<open>
  The dataclass \<^verbatim>\<open>ProcessedImage\<close>. The type \<open>'img\<close> stands for \<^verbatim>\<open>PIL.Image.Image\<close>.
\<close>

record 'img processed_image =
  original_name :: string
  image_obj :: 'img

text \<open>
  The library calls of the source, taken as parameters. A call that can raise returns
  \<open>Inl\<close> of the exception.
  \<^item> \<open>read_heif\<close>: \<^verbatim>\<open>pillow_heif.read_heif(file)\<close>;
  \<^item> \<open>frombytes\<close>: \<^verbatim>\<open>Image.frombytes(mode, size, data, decoder_name, *args)\<close>;
  \<^item> \<open>Image_open\<close>: \<^verbatim>\<open>Image.open(file)\<close>;
  \<^item> \<open>Image_save\<close>: \<^verbatim>\<open>image.save(buffer, format=...)\<close> on a fresh \<^verbatim>\<open>BytesIO\<close>, giving
    the buffer's value;
  \<^item> \<open>local_file_record\<close>: the bytes that \<^verbatim>\<open>ZipFile.writestr\<close> puts into the buffer for a
    member with a given name and data (local header, name, data);
  \<^item> \<open>central_directory_record\<close>: the bytes that closing the \<^verbatim>\<open>ZipFile\<close> puts into the
    central directory for a member, given the offset of its local header.
  The two records hold a time stamp and a checksum, which the model does not compute.
\<close>

record 'img libraries =
  read_heif :: "uploaded_file \<Rightarrow> py_exception + heif_file"
  frombytes :: "string \<Rightarrow> nat \<times> nat \<Rightarrow> bytes \<Rightarrow> string \<Rightarrow> string \<times> nat \<Rightarrow> py_exception + 'img"
  Image_open :: "uploaded_file \<Rightarrow> py_exception + 'img"
  Image_save :: "'img \<Rightarrow> string \<Rightarrow> py_exception + bytes"
  local_file_record :: "string \<Rightarrow> bytes \<Rightarrow> bytes"
  central_directory_record :: "nat \<Rightarrow> string \<Rightarrow> bytes \<Rightarrow> bytes"

section \<open>String operations of the source\<close>

text \<open>\<^verbatim>\<open>str.lower\<close> on ASCII letters; every other character is kept.\<close>

definition lower_char :: "char \<Rightarrow> char" where
  "lower_char c =
     (case map_of (zip ''ABCDEFGHIJKLMNOPQRSTUVWXYZ'' ''abcdefghijklmnopqrstuvwxyz'') c of
        Some d \<Rightarrow> d
      | None \<Rightarrow> c)"

definition lower :: "string \<Rightarrow> string" where
  "lower s = map lower_char s"

text \<open>\<^verbatim>\<open>s.endswith(suffix)\<close>.\<close>

definition endswith :: "string \<Rightarrow> string \<Rightarrow> bool" where
  "endswith s suf =
     (length suf \<le> length s \<and> drop (length s - length suf) s = suf)"

section \<open>ImageProcessor\<close>

definition process_heic :: "'img libraries \<Rightarrow> uploaded_file \<Rightarrow> py_exception + 'img" where
  "process_heic lib file =
     (case read_heif lib file of
        Inl e \<Rightarrow> Inl e
      | Inr heif \<Rightarrow>
          frombytes lib (heif_mode heif) (heif_size heif) (heif_data heif) ''raw''
            (heif_mode heif, heif_stride heif))"

text \<open>
  \<^verbatim>\<open>process_image\<close>: the handler of the \<^verbatim>\<open>try\<close> logs and re-raises with a bare
  \<^verbatim>\<open>raise\<close>, so the exception that leaves is the one that came in.
\<close>

definition process_image ::
  "'img libraries \<Rightarrow> uploaded_file \<Rightarrow> py_exception + 'img processed_image" where
  "process_image lib file =
     (case (if endswith (lower (name file)) ''.heic''
            then process_heic lib file
            else Image_open lib file) of
        Inr img \<Rightarrow> Inr \<lparr>original_name = name file, image_obj = img\<rparr>
      | Inl e \<Rightarrow> Inl e)"

subsection \<open>The thread pool\<close>

text \<open>
  A \<^verbatim>\<open>ThreadPoolExecutor\<close> runs the submitted calls in some order. The argument
  \<open>finish\<close> gives the time at which the call submitted at each position completes; the
  calls complete in increasing time. Every completion order of \<open>n\<close> calls is the order of
  some \<open>finish\<close> (lemma \<open>every_order_completes\<close> below).
\<close>

definition completion_order :: "(nat \<Rightarrow> nat) \<Rightarrow> 'a list \<Rightarrow> (nat \<times> 'a) list" where
  "completion_order finish xs = sort_key (\<lambda>(i, x). finish i) (enumerate 0 xs)"

text \<open>
  The futures of \<^verbatim>\<open>[executor.submit(fn, x) for x in xs]\<close> once the pool has run: each call,
  as it completes, stores its outcome in the future of its position.
\<close>

definition run_futures :: "('a \<Rightarrow> 'r) \<Rightarrow> 'a list \<Rightarrow> (nat \<Rightarrow> nat) \<Rightarrow> (nat \<rightharpoonup> 'r)" where
  "run_futures fn xs finish =
     fold (\<lambda>(i, x) futures. futures(i \<mapsto> fn x)) (completion_order finish xs) Map.empty"

text \<open>
  \<^verbatim>\<open>list(executor.map(fn, xs))\<close> asks the futures for their results in the order of
  submission. A result that is an exception is raised and ends the iteration; a future that
  never completes would block for ever, which is the value \<open>None\<close>.
\<close>

fun collect_results :: "(nat \<rightharpoonup> 'e + 'r) \<Rightarrow> nat list \<Rightarrow> ('e + 'r list) option" where
  "collect_results futures [] = Some (Inr [])"
| "collect_results futures (i # rest) =
     (case futures i of
        None \<Rightarrow> None
      | Some (Inl e) \<Rightarrow> Some (Inl e)
      | Some (Inr r) \<Rightarrow>
          (case collect_results futures rest of
             None \<Rightarrow> None
           | Some (Inl e) \<Rightarrow> Some (Inl e)
           | Some (Inr rs) \<Rightarrow> Some (Inr (r # rs))))"

definition process_images_parallel ::
  "'img libraries \<Rightarrow> uploaded_file list \<Rightarrow> (nat \<Rightarrow> nat) \<Rightarrow>
     (py_exception + 'img processed_image list) option" where
  "process_images_parallel lib files finish =
     collect_results (run_futures (process_image lib) files finish) [0..<length files]"

section \<open>ImageConverter\<close>

text \<open>
  \<^verbatim>\<open>Path(p).stem\<close> for a POSIX path, as in CPython up to 3.13. A path is split at
  \<^verbatim>\<open>/\<close>, empty components and \<^verbatim>\<open>.\<close> components are dropped, and \<^verbatim>\<open>name\<close> is the
  last component left (the empty string when there is none). With \<^verbatim>\<open>i = name.rfind('.')\<close>,
  the stem is \<^verbatim>\<open>name[:i]\<close> if \<^verbatim>\<open>0 < i < len(name) - 1\<close> and \<^verbatim>\<open>name\<close> otherwise.
\<close>

fun split_on :: "char \<Rightarrow> string \<Rightarrow> string list" where
  "split_on sep [] = [[]]"
| "split_on sep (c # cs) =
     (if c = sep then [] # split_on sep cs
      else (case split_on sep cs of
              [] \<Rightarrow> [[c]]
            | part # parts \<Rightarrow> (c # part) # parts))"

definition path_name :: "string \<Rightarrow> string" where
  "path_name p =
     (case filter (\<lambda>x. x \<noteq> [] \<and> x \<noteq> ''.'') (split_on CHR ''/'' p) of
        [] \<Rightarrow> []
      | part # parts \<Rightarrow> last (part # parts))"

definition rfind :: "string \<Rightarrow> char \<Rightarrow> int" where
  "rfind s c =
     (if c \<in> set s
      then int (length s) - 1 - int (length (takeWhile (\<lambda>x. x \<noteq> c) (rev s)))
      else - 1)"

definition stem :: "string \<Rightarrow> string" where
  "stem p =
     (let nm = path_name p; i = rfind nm CHR ''.''
      in if 0 < i \<and> i < int (length nm) - 1 then take (nat i) nm else nm)"

text \<open>
  \<^verbatim>\<open>convert_to_buffer\<close>: the image is saved first, into a fresh buffer; an exception of
  \<^verbatim>\<open>save\<close> leaves the function before the name is computed.
\<close>

definition convert_to_buffer ::
  "'img libraries \<Rightarrow> 'img processed_image \<Rightarrow> string \<Rightarrow> py_exception + string \<times> bytes" where
  "convert_to_buffer lib processed_image target_format =
     (case Image_save lib (image_obj processed_image) target_format of
        Inl e \<Rightarrow> Inl e
      | Inr img_buffer \<Rightarrow>
          (let base_name = stem (original_name processed_image);
               new_name = base_name @ ''.'' @ lower target_format
           in Inr (new_name, img_buffer)))"

subsection \<open>The archive of \<^verbatim>\<open>zipfile\<close>\<close>

text \<open>
  A \<^verbatim>\<open>ZipFile\<close> open for writing is the list of the members written so far, each with
  the name under which it is stored.
\<close>

type_synonym zip_file = "(string \<times> bytes) list"

text \<open>\<^verbatim>\<open>ZipInfo(filename)\<close> cuts the name at the first NUL character.\<close>

definition sanitize_filename :: "string \<Rightarrow> string" where
  "sanitize_filename filename = takeWhile (\<lambda>c. c \<noteq> CHR 0x00) filename"

text \<open>
  A lone surrogate in a string: the byte \<^verbatim>\<open>ED\<close> followed by a byte from \<^verbatim>\<open>A0\<close> to
  \<^verbatim>\<open>BF\<close>.
\<close>

fun has_surrogate :: "string \<Rightarrow> bool" where
  "has_surrogate (c # d # rest) =
     ((c = CHR 0xED \<and> 0xA0 \<le> (of_char d :: nat) \<and> (of_char d :: nat) \<le> 0xBF)
      \<or> has_surrogate (d # rest))"
| "has_surrogate s = False"

text \<open>
  The name under which \<^verbatim>\<open>writestr\<close> stores a member, or the exception that it raises, as
  in CPython 3.11: \<^verbatim>\<open>writestr\<close> looks at the last character of the cut name
  (\<^verbatim>\<open>zinfo.filename[-1]\<close>), which fails for an empty name; for the local header the name is
  encoded, which fails for a lone surrogate, and its length in bytes is packed into an
  unsigned 16-bit field, which fails above 65535. The texts of the exceptions are abridged.
\<close>

definition zip_filename :: "string \<Rightarrow> py_exception + string" where
  "zip_filename new_name =
     (let filename = sanitize_filename new_name
      in if filename = []
         then Inl (PyException ''IndexError'' ''string index out of range'')
         else if has_surrogate filename
         then Inl (PyException ''UnicodeEncodeError'' ''surrogates not allowed'')
         else if 65535 < length filename
         then Inl (PyException ''struct.error'' ''format requires 0 <= number <= 65535'')
         else Inr filename)"

text \<open>
  \<^verbatim>\<open>zip_file.writestr(new_name, image_data)\<close>. When it raises, the archive is as before.
  (\<^verbatim>\<open>zipfile\<close> warns about a name that is already there and writes the member all the
  same.)
\<close>

definition writestr :: "zip_file \<Rightarrow> string \<Rightarrow> bytes \<Rightarrow> py_exception + zip_file" where
  "writestr zf new_name image_data =
     (case zip_filename new_name of
        Inl e \<Rightarrow> Inl e
      | Inr filename \<Rightarrow> Inr (zf @ [(filename, image_data)]))"

text \<open>The fields \<^verbatim>\<open>H\<close>, \<^verbatim>\<open>L\<close> and \<^verbatim>\<open>Q\<close> of \<^verbatim>\<open>struct.pack\<close> in little-endian order.\<close>

definition le16 :: "nat \<Rightarrow> bytes" where
  "le16 n = [of_nat n, of_nat (n div 256)]"

definition le32 :: "nat \<Rightarrow> bytes" where
  "le32 n = [of_nat n, of_nat (n div 256), of_nat (n div 65536), of_nat (n div 16777216)]"

definition le64 :: "nat \<Rightarrow> bytes" where
  "le64 n = le32 n @ le32 (n div 4294967296)"

text \<open>
  The end-of-central-directory record (\<^verbatim>\<open>PK\005\006\<close>, format \<^verbatim>\<open><4s4H2LH\<close>, 22 bytes,
  with an empty comment), and the ZIP64 end record (\<^verbatim>\<open>PK\006\006\<close>, format
  \<^verbatim>\<open><4sQ2H2L4Q\<close>) with its locator (\<^verbatim>\<open>PK\006\007\<close>, format \<^verbatim>\<open><4sLQL\<close>).
\<close>

definition end_of_central_directory :: "nat \<Rightarrow> nat \<Rightarrow> nat \<Rightarrow> bytes" where
  "end_of_central_directory centDirCount centDirSize centDirOffset =
     [0x50, 0x4B, 0x05, 0x06] @ le16 0 @ le16 0 @ le16 centDirCount @ le16 centDirCount
     @ le32 centDirSize @ le32 centDirOffset @ le16 0"

definition zip64_end_records :: "nat \<Rightarrow> nat \<Rightarrow> nat \<Rightarrow> nat \<Rightarrow> bytes" where
  "zip64_end_records centDirCount centDirSize centDirOffset pos2 =
     [0x50, 0x4B, 0x06, 0x06] @ le64 44 @ le16 45 @ le16 45 @ le32 0 @ le32 0
     @ le64 centDirCount @ le64 centDirCount @ le64 centDirSize @ le64 centDirOffset
     @ [0x50, 0x4B, 0x06, 0x07] @ le32 0 @ le64 pos2 @ le32 1"

definition ZIP_FILECOUNT_LIMIT :: nat where
  "ZIP_FILECOUNT_LIMIT = 65535"

definition ZIP64_LIMIT :: nat where
  "ZIP64_LIMIT = 2147483647"

text \<open>The central directory: one record for each member, with the offset of its local header.\<close>

fun central_directory :: "'img libraries \<Rightarrow> nat \<Rightarrow> zip_file \<Rightarrow> bytes" where
  "central_directory lib header_offset [] = []"
| "central_directory lib header_offset ((filename, data) # rest) =
     central_directory_record lib header_offset filename data
     @ central_directory lib (header_offset + length (local_file_record lib filename data)) rest"

text \<open>
  The value of the buffer when the \<^verbatim>\<open>with ZipFile(zip_buffer, "w")\<close> block has closed the
  archive: the local records of the members in the order of writing, the central
  directory, and the end records that \<^verbatim>\<open>_write_end_record\<close> writes (the ZIP64 records
  only when a limit is passed, \<^verbatim>\<open>allowZip64\<close> being true).
\<close>

definition ZipFile_close :: "'img libraries \<Rightarrow> zip_file \<Rightarrow> bytes" where
  "ZipFile_close lib zf =
     (let local_records = concat (map (\<lambda>(filename, data). local_file_record lib filename data) zf);
          start_dir = length local_records;
          directory = central_directory lib 0 zf;
          centDirCount = length zf;
          centDirSize = length directory;
          centDirOffset = start_dir;
          pos2 = start_dir + centDirSize
      in local_records @ directory
         @ (if ZIP_FILECOUNT_LIMIT < centDirCount \<or> ZIP64_LIMIT < centDirOffset
               \<or> ZIP64_LIMIT < centDirSize
            then zip64_end_records centDirCount centDirSize centDirOffset pos2
                 @ end_of_central_directory (min centDirCount 0xFFFF) (min centDirSize 0xFFFFFFFF)
                     (min centDirOffset 0xFFFFFFFF)
            else end_of_central_directory centDirCount centDirSize centDirOffset))"

text \<open>
  Reading an archive back, as the first attempt of \<^verbatim>\<open>zipfile._EndRecData\<close> does: the last
  22 bytes must start with \<^verbatim>\<open>PK\005\006\<close> and end with a comment length of zero; they then
  give the number of entries, the size and the offset of the central directory.
  \<^verbatim>\<open>zipfile.is_zipfile\<close> accepts the bytes for which this succeeds.
\<close>

definition le_value :: "bytes \<Rightarrow> nat" where
  "le_value bs = foldr (\<lambda>b n. unat b + 256 * n) bs 0"

definition end_record :: "bytes \<Rightarrow> (nat \<times> nat \<times> nat) option" where
  "end_record bs =
     (let data = drop (length bs - 22) bs
      in if length data = 22 \<and> take 4 data = [0x50, 0x4B, 0x05, 0x06] \<and> drop 20 data = [0, 0]
         then Some (le_value (take 2 (drop 10 data)), le_value (take 4 (drop 12 data)),
                    le_value (take 4 (drop 16 data)))
         else None)"

definition is_zipfile :: "bytes \<Rightarrow> bool" where
  "is_zipfile bs = (end_record bs \<noteq> None)"

text \<open>
  A name that \<^verbatim>\<open>writestr\<close> stores as it is: not empty, no NUL character, no lone
  surrogate, at most 65535 bytes.
\<close>

definition plain_name :: "string \<Rightarrow> bool" where
  "plain_name nm =
     (nm \<noteq> [] \<and> CHR 0x00 \<notin> set nm \<and> \<not> has_surrogate nm \<and> length nm \<le> 65535)"

subsection \<open>\<^verbatim>\<open>create_zip\<close>\<close>

text \<open>
  \<^verbatim>\<open>concurrent.futures.as_completed(futures)\<close> yields the futures in the order in which
  they complete. A future is given here by its outcome.
\<close>

definition as_completed :: "'r list \<Rightarrow> (nat \<Rightarrow> nat) \<Rightarrow> 'r list" where
  "as_completed futures finish = map snd (completion_order finish futures)"

text \<open>
  The loop over \<^verbatim>\<open>as_completed\<close>. The \<^verbatim>\<open>try\<close> holds both \<^verbatim>\<open>future.result()\<close>, which
  raises the exception of the call, and \<^verbatim>\<open>zip_file.writestr\<close>; the handler logs the
  exception of either and the loop goes on with the next future.
\<close>

fun write_results :: "zip_file \<Rightarrow> (py_exception + string \<times> bytes) list \<Rightarrow> zip_file" where
  "write_results zf [] = zf"
| "write_results zf (future # rest) =
     (case future of
        Inr (new_name, image_data) \<Rightarrow>
          (case writestr zf new_name image_data of
             Inr zf' \<Rightarrow> write_results zf' rest
           | Inl e \<Rightarrow> write_results zf rest)
      | Inl e \<Rightarrow> write_results zf rest)"

text \<open>
  One pass of the body of that loop on its own: the member that it stores, or the exception
  that its handler catches.
\<close>

definition stored_member :: "py_exception + string \<times> bytes \<Rightarrow> py_exception + string \<times> bytes" where
  "stored_member future =
     (case future of
        Inr (new_name, image_data) \<Rightarrow>
          (case zip_filename new_name of
             Inr filename \<Rightarrow> Inr (filename, image_data)
           | Inl e \<Rightarrow> Inl e)
      | Inl e \<Rightarrow> Inl e)"

text \<open>The members of the archive when the \<^verbatim>\<open>with ZipFile(...)\<close> block of \<^verbatim>\<open>create_zip\<close> ends.\<close>

definition create_zip_members ::
  "'img libraries \<Rightarrow> 'img processed_image list \<Rightarrow> string \<Rightarrow> (nat \<Rightarrow> nat) \<Rightarrow> zip_file" where
  "create_zip_members lib processed_images target_format finish =
     (let futures = map (\<lambda>img. convert_to_buffer lib img target_format) processed_images
      in write_results [] (as_completed futures finish))"

definition create_zip ::
  "'img libraries \<Rightarrow> 'img processed_image list \<Rightarrow> string \<Rightarrow> (nat \<Rightarrow> nat) \<Rightarrow> bytes" where
  "create_zip lib processed_images target_format finish =
     ZipFile_close lib (create_zip_members lib processed_images target_format finish)"

section \<open>The page \<^verbatim>\<open>render_image_converter\<close>\<close>

text \<open>The four keys that the page keeps in \<^verbatim>\<open>st.session_state\<close>.\<close>

record 'img session_state =
  processed_images :: "'img processed_image list option"
  last_files_processed :: "uploaded_file list option"
  last_format :: "string option"
  zip_cache :: "string \<rightharpoonup> bytes"

definition initial_session :: "'img session_state" where
  "initial_session =
     \<lparr>processed_images = None, last_files_processed = None, last_format = None,
      zip_cache = Map.empty\<rparr>"

text \<open>
  What the widgets return in one run of the script: \<^verbatim>\<open>st.file_uploader\<close>,
  \<^verbatim>\<open>st.selectbox\<close>, \<^verbatim>\<open>st.button("Convert All")\<close> and \<^verbatim>\<open>st.toggle\<close>. The select box
  offers the labels of \<open>offered_formats\<close>.
\<close>

record widgets =
  uploaded_files :: "uploaded_file list"
  selected_format :: string
  convert_clicked :: bool
  show_images :: bool


text \<open>
  How one run of the script ends:
  \<^item> \<open>NoUpload\<close>: no file is uploaded, only the uploader is shown;
  \<^item> \<open>ReadyToConvert\<close>: the "Ready to convert" note and the button are shown, no results;
  \<^item> \<open>Rerun\<close>: the images were processed and \<^verbatim>\<open>st.rerun()\<close> was called;
  \<^item> \<open>Uncaught e\<close>: \<^verbatim>\<open>process_images_parallel\<close> raised \<open>e\<close>, which leaves the page function;
  \<^item> \<open>NeverReturns\<close>: the run blocks on a future that does not complete;
  \<^item> \<open>Results shown built zip_data file_name\<close>: the results are shown, with the images of the
    gallery, whether \<^verbatim>\<open>create_zip\<close> was called in this run, and the \<^verbatim>\<open>data\<close> and
    \<^verbatim>\<open>file_name\<close> of the download button.
\<close>

datatype 'img page =
    NoUpload
  | ReadyToConvert
  | Rerun
  | Uncaught py_exception
  | NeverReturns
  | Results "'img processed_image list" bool bytes string

definition needs_processing :: "widgets \<Rightarrow> 'img session_state \<Rightarrow> bool" where
  "needs_processing w s =
     (processed_images s = None
      \<or> (case last_files_processed s of
            None \<Rightarrow> True
          | Some last_files \<Rightarrow>
              length (uploaded_files w) \<noteq> length last_files
              \<or> list_ex (\<lambda>(f1, f2). name f1 \<noteq> name f2) (zip (uploaded_files w) last_files))
      \<or> Some (selected_format w) \<noteq> last_format s)"

text \<open>
  Lines 164 to 174, "Create ZIP only if needed": the archive for \<open>target_format\<close>, whether
  \<^verbatim>\<open>create_zip\<close> was called for it, and the cache afterwards.
\<close>

definition zip_if_needed ::
  "'img libraries \<Rightarrow> (nat \<Rightarrow> nat) \<Rightarrow> 'img processed_image list \<Rightarrow> string \<Rightarrow>
     (string \<rightharpoonup> bytes) \<Rightarrow> bool \<times> bytes \<times> (string \<rightharpoonup> bytes)" where
  "zip_if_needed lib finish images target_format cache =
     (case cache target_format of
        None \<Rightarrow>
          (let zip_data = create_zip lib images target_format finish
           in (True, zip_data, cache(target_format \<mapsto> zip_data)))
      | Some zip_data \<Rightarrow> (False, zip_data, cache))"


text \<open>
  One run of the page function. \<open>session\<close> is \<open>None\<close> when the session has no key
  \<^verbatim>\<open>processed_images\<close> yet. \<open>finish_decode\<close> and \<open>finish_encode\<close> are the completion times in
  the two thread pools.
\<close>

definition render_image_converter ::
  "'img libraries \<Rightarrow> (nat \<Rightarrow> nat) \<Rightarrow> (nat \<Rightarrow> nat) \<Rightarrow> widgets \<Rightarrow> 'img session_state option \<Rightarrow>
     'img session_state \<times> 'img page" where
  "render_image_converter lib finish_decode finish_encode w session =
     (let s0 = (case session of None \<Rightarrow> initial_session | Some s \<Rightarrow> s)
      in if uploaded_files w = [] then (s0, NoUpload)
         else
           let target_format = selected_format w;
               reset = needs_processing w s0;
               s1 = (if reset then s0\<lparr>processed_images := None, zip_cache := Map.empty\<rparr> else s0)
           in if reset \<and> convert_clicked w
              then (case process_images_parallel lib (uploaded_files w) finish_decode of
                      None \<Rightarrow> (s1, NeverReturns)
                    | Some (Inl e) \<Rightarrow> (s1, Uncaught e)
                    | Some (Inr images) \<Rightarrow>
                        (s1\<lparr>processed_images := Some images,
                            last_files_processed := Some (uploaded_files w),
                            last_format := Some target_format\<rparr>,
                         Rerun))
              else (case processed_images s1 of
                      None \<Rightarrow> (s1, ReadyToConvert)
                    | Some images \<Rightarrow>
                        (let (built, zip_data, cache) =
                               zip_if_needed lib finish_encode images target_format (zip_cache s1)
                         in (s1\<lparr>zip_cache := cache\<rparr>,
                             Results (if show_images w then images else []) built zip_data
                               (''converted_images_'' @ lower target_format @ ''.zip'')))))"

section \<open>Concrete libraries and inputs for the examples\<close>

text \<open>
  A small stand-in for the libraries, with byte strings as images: a file with an empty
  stream does not decode, the image \<open>[0]\<close> does not encode, the local record of a member
  is its data and its central directory record is the offset of its local record.
\<close>

definition example_lib :: "bytes libraries" where
  "example_lib =
     \<lparr>read_heif = (\<lambda>f. if stream f = [] then Inl (PyException ''ValueError'' ''bad'')
                        else Inr \<lparr>heif_mode = ''RGB'', heif_size = (1, 1),
                                  heif_data = stream f, heif_stride = 3\<rparr>),
      frombytes = (\<lambda>mode sz data decoder_name args. Inr data),
      Image_open = (\<lambda>f. if stream f = [] then Inl (PyException ''UnidentifiedImageError'' ''bad'')
                         else Inr (stream f)),
      Image_save = (\<lambda>img fmt. if img = [0] then Inl (PyException ''OSError'' ''cannot write'')
                               else Inr (img @ [of_nat (length fmt)])),
      local_file_record = (\<lambda>filename data. data),
      central_directory_record = (\<lambda>header_offset filename data. [of_nat header_offset])\<rparr>"

definition example_files :: "uploaded_file list" where
  "example_files =
     [\<lparr>name = ''a.heic'', stream = [1]\<rparr>,
      \<lparr>name = ''b.png'', stream = [2]\<rparr>,
      \<lparr>name = ''c.jpg'', stream = [3]\<rparr>]"

text \<open>A completion order that differs from the order of submission: 1, 2, 0.\<close>

definition example_finish :: "nat \<Rightarrow> nat" where
  "example_finish i = (if i = 0 then 2 else if i = 1 then 0 else 1)"

text \<open>The same upload with a second file that does not decode.\<close>

definition example_bad_files :: "uploaded_file list" where
  "example_bad_files =
     [\<lparr>name = ''a.heic'', stream = [1]\<rparr>,
      \<lparr>name = ''bad.heic'', stream = []\<rparr>,
      \<lparr>name = ''c.jpg'', stream = [3]\<rparr>]"

text \<open>The processed images of \<open>example_files\<close>.\<close>

definition example_images :: "bytes processed_image list" where
  "example_images =
     [\<lparr>original_name = ''a.heic'', image_obj = [1]\<rparr>,
      \<lparr>original_name = ''b.png'', image_obj = [2]\<rparr>,
      \<lparr>original_name = ''c.jpg'', image_obj = [3]\<rparr>]"


text \<open>Two processed images whose names differ in the extension only.\<close>

definition example_same_stem :: "bytes processed_image list" where
  "example_same_stem =
     [\<lparr>original_name = ''a.png'', image_obj = [1]\<rparr>,
      \<lparr>original_name = ''a.jpg'', image_obj = [2]\<rparr>]"

text \<open>A name of 65536 bytes, and two processed images of which the second bears it.\<close>

definition example_long_stem :: string where
  "example_long_stem = replicate 65536 CHR ''x''"


text \<open>Two processed images with that stem, which differ in the extension only.\<close>

definition example_same_long_stem :: "bytes processed_image list" where
  "example_same_long_stem =
     [\<lparr>original_name = example_long_stem @ ''.png'', image_obj = [1]\<rparr>,
      \<lparr>original_name = example_long_stem @ ''.jpg'', image_obj = [2]\<rparr>]"

text \<open>A processed image whose name has a NUL character after its first letter.\<close>

definition example_nul_stem :: string where
  "example_nul_stem = [CHR ''a'', CHR 0x00, CHR ''b'']"

definition example_images_nul :: "bytes processed_image list" where
  "example_images_nul = [\<lparr>original_name = example_nul_stem @ ''.png'', image_obj = [1]\<rparr>]"

text \<open>
  The archive of the three example images for \<^verbatim>\<open>WebP\<close> when their encodings complete in
  the order 1, 2, 0: three local records, three central directory records and the end
  record.
\<close>

definition example_archive :: bytes where
  "example_archive =
     [2, 4, 3, 4, 1, 4] @ [0, 2, 4]
     @ [0x50, 0x4B, 0x05, 0x06, 0, 0, 0, 0, 3, 0, 3, 0, 3, 0, 0, 0, 6, 0, 0, 0, 0, 0]"

text \<open>
  A session: the three files are uploaded, "WebP" is selected and "Convert All" is clicked
  (\<open>example_converted_session\<close>); the script runs again and builds the archive
  (\<open>example_cached_session\<close>).
\<close>

definition example_request :: widgets where
  "example_request =
     \<lparr>uploaded_files = example_files, selected_format = ''WebP'',
      convert_clicked = False, show_images = False\<rparr>"

definition example_converted_session :: "bytes session_state" where
  "example_converted_session =
     fst (render_image_converter example_lib example_finish example_finish
            (example_request\<lparr>convert_clicked := True\<rparr>) None)"

definition example_cached_session :: "bytes session_state" where
  "example_cached_session =
     fst (render_image_converter example_lib example_finish example_finish
            example_request (Some example_converted_session))"

section \<open>The decoder\<close>

lemma lower_char_dot: "lower_char c = CHR ''.'' \<longleftrightarrow> c = CHR ''.''"
  by (auto simp: lower_char_def split: if_splits)

lemma lower_char_h: "lower_char c = CHR ''h'' \<longleftrightarrow> c = CHR ''h'' \<or> c = CHR ''H''"
  by (auto simp: lower_char_def split: if_splits)

lemma lower_char_e: "lower_char c = CHR ''e'' \<longleftrightarrow> c = CHR ''e'' \<or> c = CHR ''E''"
  by (auto simp: lower_char_def split: if_splits)

lemma lower_char_i: "lower_char c = CHR ''i'' \<longleftrightarrow> c = CHR ''i'' \<or> c = CHR ''I''"
  by (auto simp: lower_char_def split: if_splits)

lemma lower_char_c: "lower_char c = CHR ''c'' \<longleftrightarrow> c = CHR ''c'' \<or> c = CHR ''C''"
  by (auto simp: lower_char_def split: if_splits)

lemma endswith_iff: "endswith s suf \<longleftrightarrow> (\<exists>p. s = p @ suf)"
proof
  assume "endswith s suf"
  then have "s = take (length s - length suf) s @ suf"
    unfolding endswith_def by (metis append_take_drop_id)
  then show "\<exists>p. s = p @ suf" ..
next
  assume "\<exists>p. s = p @ suf"
  then show "endswith s suf" by (auto simp: endswith_def)
qed

lemma map_eq_five:
  "map f s = [a, b, c, d, e] \<longleftrightarrow>
     (\<exists>v w x y z. s = [v, w, x, y, z] \<and> f v = a \<and> f w = b \<and> f x = c \<and> f y = d \<and> f z = e)"
  by (auto simp: map_eq_Cons_conv)

text \<open>
  The test of \<^verbatim>\<open>process_image\<close> holds exactly for the names that end with a dot and the
  letters h, e, i, c, each in either case.
\<close>

lemma endswith_lower_heic:
  "endswith (lower nm) ''.heic'' \<longleftrightarrow>
     (\<exists>p c1 c2 c3 c4. nm = p @ [CHR ''.'', c1, c2, c3, c4]
        \<and> c1 \<in> {CHR ''h'', CHR ''H''} \<and> c2 \<in> {CHR ''e'', CHR ''E''}
        \<and> c3 \<in> {CHR ''i'', CHR ''I''} \<and> c4 \<in> {CHR ''c'', CHR ''C''})"
  (is "?L \<longleftrightarrow> ?R")
proof
  assume ?L
  then obtain q where "map lower_char nm = q @ ''.heic''"
    by (auto simp: endswith_iff lower_def)
  then obtain p s where ps: "nm = p @ s" "map lower_char s = ''.heic''"
    by (auto simp: map_eq_append_conv)
  from ps(2) obtain v w x y z where "s = [v, w, x, y, z]" "lower_char v = CHR ''.''"
    "lower_char w = CHR ''h''" "lower_char x = CHR ''e''" "lower_char y = CHR ''i''"
    "lower_char z = CHR ''c''"
    unfolding map_eq_five by blast
  with ps(1) show ?R
    by (auto simp: lower_char_dot lower_char_h lower_char_e lower_char_i lower_char_c)
next
  assume ?R
  then obtain p c1 c2 c3 c4 where nm: "nm = p @ [CHR ''.'', c1, c2, c3, c4]"
    and c: "lower_char c1 = CHR ''h''" "lower_char c2 = CHR ''e''" "lower_char c3 = CHR ''i''"
      "lower_char c4 = CHR ''c''"
    by (auto simp: lower_char_h lower_char_e lower_char_i lower_char_c)
  have "lower nm = map lower_char p @ ''.heic''"
    using c by (simp add: nm lower_def lower_char_dot)
  then show ?L by (auto simp: endswith_iff)
qed

text \<open>
  Claim C7. For every file, \<^verbatim>\<open>process_image\<close> looks at the end of the name without regard
  to letter case. If the name ends with \<^verbatim>\<open>.heic\<close> in any letter case, the file is read with
  \<^verbatim>\<open>read_heif\<close> and the image is rebuilt with \<^verbatim>\<open>frombytes\<close> from the container's mode,
  size, raw data and stride; every other file goes to \<^verbatim>\<open>Image.open\<close>. An exception of
  either path leaves \<^verbatim>\<open>process_image\<close> unchanged.
\<close>

theorem process_image_dispatch:
  "process_image lib file =
     (if \<exists>p c1 c2 c3 c4. name file = p @ [CHR ''.'', c1, c2, c3, c4]
           \<and> c1 \<in> {CHR ''h'', CHR ''H''} \<and> c2 \<in> {CHR ''e'', CHR ''E''}
           \<and> c3 \<in> {CHR ''i'', CHR ''I''} \<and> c4 \<in> {CHR ''c'', CHR ''C''}
      then (case read_heif lib file of
              Inl e \<Rightarrow> Inl e
            | Inr heif \<Rightarrow>
                (case frombytes lib (heif_mode heif) (heif_size heif) (heif_data heif) ''raw''
                        (heif_mode heif, heif_stride heif) of
                   Inl e \<Rightarrow> Inl e
                 | Inr img \<Rightarrow> Inr \<lparr>original_name = name file, image_obj = img\<rparr>))
      else (case Image_open lib file of
              Inl e \<Rightarrow> Inl e
            | Inr img \<Rightarrow> Inr \<lparr>original_name = name file, image_obj = img\<rparr>))"
  unfolding endswith_lower_heic [symmetric]
  by (simp add: process_image_def process_heic_def split: sum.splits)

text \<open>
  Claim C7, on two files with an empty stream: the one named \<^verbatim>\<open>IMG.HeIc\<close> fails in
  \<^verbatim>\<open>read_heif\<close>, the one named \<^verbatim>\<open>IMG.png\<close> fails in \<^verbatim>\<open>Image.open\<close>.
\<close>

theorem process_image_dispatch_witness:
  "process_image example_lib \<lparr>name = ''IMG.HeIc'', stream = []\<rparr> =
     Inl (PyException ''ValueError'' ''bad'')
   \<and> process_image example_lib \<lparr>name = ''IMG.png'', stream = []\<rparr> =
     Inl (PyException ''UnidentifiedImageError'' ''bad'')"
  using process_image_dispatch [of example_lib "\<lparr>name = ''IMG.HeIc'', stream = []\<rparr>"]
    process_image_dispatch [of example_lib "\<lparr>name = ''IMG.png'', stream = []\<rparr>"]
  unfolding endswith_lower_heic [symmetric]
  by (simp add: example_lib_def endswith_def lower_def lower_char_def)

section \<open>The batch decoder\<close>

lemma fold_store_lookup:
  "fold (\<lambda>(i, x) futures. futures(i \<mapsto> fn x)) ys m k =
     (case map_of (rev ys) k of Some x \<Rightarrow> Some (fn x) | None \<Rightarrow> m k)"
  by (induction ys arbitrary: m) (auto simp: map_add_def split: option.splits)

lemma mset_completion_order: "mset (completion_order finish xs) = mset (enumerate 0 xs)"
  by (simp add: completion_order_def)

lemma set_completion_order: "set (completion_order finish xs) = set (enumerate 0 xs)"
  by (simp add: completion_order_def)

lemma distinct_fst_completion_order: "distinct (map fst (completion_order finish xs))"
proof -
  have "mset (map fst (completion_order finish xs)) = mset (map fst (enumerate 0 xs))"
    unfolding mset_map mset_completion_order ..
  moreover have "distinct (map fst (enumerate 0 xs))" by simp
  ultimately show ?thesis by (metis mset_eq_imp_distinct_iff)
qed

lemma enumerate_as_map: "enumerate 0 xs = map (\<lambda>i. (i, xs ! i)) [0..<length xs]"
  using enumerate_map_upt [of 0 "\<lambda>i. xs ! i" "length xs"] by (simp add: map_nth)

lemma filter_key_singleton:
  assumes "distinct zs" "k \<in> set zs" "\<And>x. x \<in> set zs \<Longrightarrow> f k = f x \<Longrightarrow> x = k"
  shows "filter (\<lambda>x. f k = f x) zs = [k]"
  using assms
proof (induction zs)
  case Nil
  then show ?case by simp
next
  case (Cons z zs)
  show ?case
  proof (cases "z = k")
    case True
    then have "k \<notin> set zs" using Cons.prems(1) by simp
    then have "filter (\<lambda>x. f k = f x) zs = []"
      using Cons.prems(3) by (auto simp: filter_empty_conv)
    then show ?thesis using True by simp
  next
    case False
    then have "f k \<noteq> f z" using Cons.prems(3) [of z] by auto
    moreover have "filter (\<lambda>x. f k = f x) zs = [k]"
      using Cons.prems False by (intro Cons.IH) auto
    ultimately show ?thesis by simp
  qed
qed

lemma position_nth:
  assumes "distinct p" "k < length p"
  shows "length (takeWhile (\<lambda>j. j \<noteq> p ! k) p) = k"
proof -
  have "takeWhile (\<lambda>j. j \<noteq> p ! k) p = take k p"
    using assms by (intro takeWhile_eq_take_P_nth) (auto simp: nth_eq_iff_index_eq)
  then show ?thesis using assms(2) by simp
qed

text \<open>Every order of the positions is the completion order of some \<open>finish\<close>.\<close>

lemma every_order_completes:
  assumes "mset p = mset [0..<length xs]"
  shows "\<exists>finish. completion_order finish xs = map (\<lambda>i. (i, xs ! i)) p"
proof -
  define finish where "finish i = length (takeWhile (\<lambda>j. j \<noteq> i) p)" for i
  let ?f = "\<lambda>(i, x). finish i"
  let ?ys = "map (\<lambda>i. (i, xs ! i)) p"
  have dp: "distinct p" using assms by (metis distinct_upt mset_eq_imp_distinct_iff)
  have lp: "length p = length xs" using assms by (metis length_upt mset_eq_length minus_nat.diff_0)
  have fin: "finish (p ! k) = k" if "k < length p" for k
    unfolding finish_def using dp that by (rule position_nth)
  have inj: "i = j" if "i \<in> set p" "j \<in> set p" "finish i = finish j" for i j
    using that fin by (metis in_set_conv_nth)
  have a: "mset ?ys = mset (enumerate 0 xs)"
    unfolding enumerate_as_map mset_map assms ..
  have dy: "distinct ?ys" using dp by (simp add: distinct_map inj_on_def)
  have de: "distinct (enumerate 0 xs)" by simp
  have se: "set (enumerate 0 xs) = set ?ys" using a by (metis set_mset_mset)
  have keys: "x = k" if "k \<in> set ?ys" "x \<in> set ?ys" "?f k = ?f x" for k x
    using that inj by auto
  have b: "filter (\<lambda>x. ?f k = ?f x) ?ys = filter (\<lambda>x. ?f k = ?f x) (enumerate 0 xs)"
    if "k \<in> set ?ys" for k
  proof -
    have "filter (\<lambda>x. ?f k = ?f x) ?ys = [k]"
    proof (rule filter_key_singleton [where f = ?f])
      show "distinct ?ys" by (rule dy)
      show "k \<in> set ?ys" by (rule that)
      show "x = k" if "x \<in> set ?ys" "?f k = ?f x" for x
        using keys [OF \<open>k \<in> set ?ys\<close> that] .
    qed
    moreover have "filter (\<lambda>x. ?f k = ?f x) (enumerate 0 xs) = [k]"
    proof (rule filter_key_singleton [where f = ?f])
      show "distinct (enumerate 0 xs)" by (rule de)
      show "k \<in> set (enumerate 0 xs)" unfolding se by (rule that)
      show "x = k" if "x \<in> set (enumerate 0 xs)" "?f k = ?f x" for x
        using keys [OF \<open>k \<in> set ?ys\<close> that(1) [unfolded se] that(2)] .
    qed
    ultimately show ?thesis by simp
  qed
  have "map ?f ?ys = map finish p" by simp
  also have "\<dots> = [0..<length p]"
    by (rule nth_equalityI) (simp_all add: fin)
  finally have c: "sorted (map ?f ?ys)" by simp
  have "sort_key ?f (enumerate 0 xs) = ?ys"
    using a b c by (rule properties_for_sort_key)
  then show ?thesis unfolding completion_order_def by blast
qed

lemma every_order_yields:
  assumes "mset p = mset [0..<length futures]"
  shows "\<exists>finish. as_completed futures finish = map (\<lambda>i. futures ! i) p"
proof -
  from every_order_completes [OF assms] obtain finish where
    "completion_order finish futures = map (\<lambda>i. (i, futures ! i)) p" ..
  then have "as_completed futures finish = map (\<lambda>i. futures ! i) p"
    by (simp add: as_completed_def comp_def)
  then show ?thesis by blast
qed

text \<open>
  Whatever the completion order, the future of position \<open>k\<close> holds the outcome of the call
  on the \<open>k\<close>-th argument once the pool has run.
\<close>

lemma run_futures_lookup:
  "run_futures fn xs finish k = (if k < length xs then Some (fn (xs ! k)) else None)"
proof -
  let ?ys = "rev (completion_order finish xs)"
  have d: "distinct (map fst ?ys)"
    using distinct_fst_completion_order [of finish xs] by (simp add: rev_map [symmetric])
  have s: "set ?ys = set (enumerate 0 xs)" by (simp add: set_completion_order)
  show ?thesis
  proof (cases "k < length xs")
    case True
    then have "(k, xs ! k) \<in> set ?ys" unfolding s by (simp add: in_set_enumerate_eq)
    with d have "map_of ?ys k = Some (xs ! k)" by (rule_tac map_of_is_SomeI)
    then show ?thesis using True by (simp add: run_futures_def fold_store_lookup)
  next
    case False
    then have "k \<notin> fst ` set ?ys" unfolding s by (auto simp: in_set_enumerate_eq)
    then have "map_of ?ys k = None" by (simp add: map_of_eq_None_iff)
    then show ?thesis using False by (simp add: run_futures_def fold_store_lookup)
  qed
qed

lemma collect_results_all:
  "\<forall>i \<in> set ixs. futures i = Some (Inr (g i)) \<Longrightarrow>
     collect_results futures ixs = Some (Inr (map g ixs))"
  by (induction ixs) auto

lemma collect_results_first_error:
  "\<forall>i \<in> set pre. \<exists>r. futures i = Some (Inr r) \<Longrightarrow> futures k = Some (Inl e) \<Longrightarrow>
     collect_results futures (pre @ k # post) = Some (Inl e)"
  by (induction pre) auto

lemma collect_results_returns:
  "\<forall>i \<in> set ixs. futures i \<noteq> None \<Longrightarrow> collect_results futures ixs \<noteq> None"
  by (induction ixs) (auto split: option.splits sum.splits)

text \<open>The pool completes every call, so \<^verbatim>\<open>process_images_parallel\<close> never blocks.\<close>

lemma process_images_parallel_returns: "process_images_parallel lib files finish \<noteq> None"
  unfolding process_images_parallel_def
  by (rule collect_results_returns) (simp add: run_futures_lookup)

lemma process_image_name:
  "process_image lib file = Inr img \<Longrightarrow> original_name img = name file"
  by (auto simp: process_image_def split: sum.splits)

lemma process_image_error:
  "process_image lib file = Inl e \<longleftrightarrow>
     (if endswith (lower (name file)) ''.heic'' then process_heic lib file
      else Image_open lib file) = Inl e"
  by (auto simp: process_image_def split: sum.splits)

text \<open>
  Claim C1. When every file of the upload decodes, \<^verbatim>\<open>process_images_parallel\<close> returns a
  list as long as the upload whose \<open>i\<close>-th element is the processed image of the \<open>i\<close>-th
  file (and carries its name), for every completion order \<open>finish\<close> of the pool.
\<close>

theorem process_images_parallel_order:
  assumes "\<forall>file \<in> set files. \<exists>img. process_image lib file = Inr img"
  shows "\<exists>batch. process_images_parallel lib files finish = Some (Inr batch)
           \<and> length batch = length files
           \<and> (\<forall>i < length files. process_image lib (files ! i) = Inr (batch ! i))
           \<and> map original_name batch = map name files"
proof -
  let ?g = "\<lambda>i. projr (process_image lib (files ! i))"
  let ?batch = "map ?g [0..<length files]"
  have ok: "process_image lib (files ! i) = Inr (?g i)" if "i < length files" for i
  proof -
    from that assms obtain img where "process_image lib (files ! i) = Inr img"
      using nth_mem by blast
    then show ?thesis by simp
  qed
  have "\<forall>i \<in> set [0..<length files].
          run_futures (process_image lib) files finish i = Some (Inr (?g i))"
  proof
    fix i assume "i \<in> set [0..<length files]"
    then have lt: "i < length files" by simp
    then have "run_futures (process_image lib) files finish i =
        Some (process_image lib (files ! i))"
      by (simp add: run_futures_lookup)
    also have "\<dots> = Some (Inr (?g i))" using ok [OF lt] by (rule arg_cong)
    finally show "run_futures (process_image lib) files finish i = Some (Inr (?g i))" .
  qed
  then have "process_images_parallel lib files finish = Some (Inr ?batch)"
    unfolding process_images_parallel_def by (rule collect_results_all)
  moreover have "length ?batch = length files" by simp
  moreover have "\<forall>i < length files. process_image lib (files ! i) = Inr (?batch ! i)"
  proof (intro allI impI)
    fix i assume lt: "i < length files"
    then have "?batch ! i = ?g i" by simp
    then show "process_image lib (files ! i) = Inr (?batch ! i)"
      using ok [OF lt] by (simp only:)
  qed
  moreover have "map original_name ?batch = map name files"
  proof (rule nth_equalityI)
    show "length (map original_name ?batch) = length (map name files)" by simp
  next
    fix i assume "i < length (map original_name ?batch)"
    then have lt: "i < length files" by simp
    then show "map original_name ?batch ! i = map name files ! i"
      using process_image_name [OF ok [OF lt]] by simp
  qed
  ultimately show ?thesis by blast
qed

lemma example_completion_three:
  "completion_order example_finish [x, y, z] = [(1, y), (2, z), (0, x)]"
  by (simp add: completion_order_def example_finish_def)

lemma example_process_image:
  "process_image example_lib \<lparr>name = ''a.heic'', stream = [1]\<rparr> =
     Inr \<lparr>original_name = ''a.heic'', image_obj = [1]\<rparr>"
  "process_image example_lib \<lparr>name = ''b.png'', stream = [2]\<rparr> =
     Inr \<lparr>original_name = ''b.png'', image_obj = [2]\<rparr>"
  "process_image example_lib \<lparr>name = ''c.jpg'', stream = [3]\<rparr> =
     Inr \<lparr>original_name = ''c.jpg'', image_obj = [3]\<rparr>"
  "process_image example_lib \<lparr>name = ''bad.heic'', stream = []\<rparr> =
     Inl (PyException ''ValueError'' ''bad'')"
  by (simp_all add: process_image_def process_heic_def example_lib_def endswith_def lower_def
      lower_char_def)

lemma example_decode:
  "process_images_parallel example_lib example_files example_finish = Some (Inr example_images)"
  by (simp add: process_images_parallel_def run_futures_def example_files_def
      example_images_def example_process_image example_completion_three)

lemma example_decode_bad:
  "process_images_parallel example_lib example_bad_files example_finish =
     Some (Inl (PyException ''ValueError'' ''bad''))"
  by (simp add: process_images_parallel_def run_futures_def example_bad_files_def
      example_process_image example_completion_three)

text \<open>
  Claim C1, on the upload \<^verbatim>\<open>a.heic\<close>, \<^verbatim>\<open>b.png\<close>, \<^verbatim>\<open>c.jpg\<close> whose calls complete in the
  order 1, 2, 0: the three processed images come back in the order of the upload.
\<close>

theorem process_images_parallel_order_witness:
  "process_image example_lib (example_files ! 0) = Inr (example_images ! 0)
   \<and> process_image example_lib (example_files ! 1) = Inr (example_images ! 1)
   \<and> process_image example_lib (example_files ! 2) = Inr (example_images ! 2)
   \<and> (\<exists>batch. process_images_parallel example_lib example_files example_finish = Some (Inr batch)
         \<and> length batch = 3
         \<and> map original_name batch = [''a.heic'', ''b.png'', ''c.jpg''])"
proof -
  have each: "process_image example_lib (example_files ! 0) = Inr (example_images ! 0)"
    "process_image example_lib (example_files ! 1) = Inr (example_images ! 1)"
    "process_image example_lib (example_files ! 2) = Inr (example_images ! 2)"
    by (simp_all add: example_files_def example_images_def example_process_image)
  have h: "\<forall>file \<in> set example_files. \<exists>img. process_image example_lib file = Inr img"
    by (simp add: example_files_def example_process_image)
  from process_images_parallel_order [OF h, of example_finish]
  show ?thesis using each by (auto simp: example_files_def)
qed

text \<open>
  Claim C2 as stated fails: when a file does not decode, the exception that leaves
  \<^verbatim>\<open>process_images_parallel\<close> is the one the decoding library raised. For the upload
  \<^verbatim>\<open>a.heic\<close>, \<^verbatim>\<open>bad.heic\<close>, \<^verbatim>\<open>c.jpg\<close> it is the \<^verbatim>\<open>ValueError\<close> of \<^verbatim>\<open>read_heif\<close>, whose text
  does not contain the name \<^verbatim>\<open>bad.heic\<close>.
\<close>

theorem decode_error_names_input_counterexample:
  "process_images_parallel example_lib example_bad_files example_finish =
     Some (Inl (PyException ''ValueError'' ''bad''))
   \<and> name (example_bad_files ! 1) = ''bad.heic''
   \<and> \<not> sublist ''bad.heic'' (exc_str (PyException ''ValueError'' ''bad''))"
proof -
  have "name (example_bad_files ! 1) = ''bad.heic''" by (simp add: example_bad_files_def)
  moreover have "\<not> sublist ''bad.heic'' (exc_str (PyException ''ValueError'' ''bad''))"
    by (auto dest: sublist_length_le)
  ultimately show ?thesis using example_decode_bad by blast
qed

text \<open>
  Claim C2, amended. If the file at position \<open>k\<close> is the first of the upload that does not
  decode, \<^verbatim>\<open>process_images_parallel\<close> raises, for every completion order, the exception that
  the decoding path of that file raised, unchanged, and returns no list. A run of the page
  that called it for a click on "Convert All" ends with this exception and leaves no
  processed images and an empty cache in the session.
\<close>

theorem process_images_parallel_first_error:
  assumes "k < length files"
    and "process_image lib (files ! k) = Inl e"
    and "\<forall>j < k. \<exists>img. process_image lib (files ! j) = Inr img"
  shows "process_images_parallel lib files finish = Some (Inl e)
       \<and> (if endswith (lower (name (files ! k))) ''.heic'' then process_heic lib (files ! k)
          else Image_open lib (files ! k)) = Inl e
       \<and> (uploaded_files w = files \<and> convert_clicked w \<and> needs_processing w s \<longrightarrow>
            render_image_converter lib finish finish_encode w (Some s) =
              (s\<lparr>processed_images := None, zip_cache := Map.empty\<rparr>, Uncaught e))"
proof -
  have "[0..<k + (length files - k)] = [0..<k] @ [k..<k + (length files - k)]"
    by (rule upt_add_eq_append) simp
  then have positions: "[0..<length files] = [0..<k] @ k # [Suc k..<length files]"
    using assms(1) by (simp add: upt_conv_Cons)
  have "\<forall>i \<in> set [0..<k]. \<exists>r. run_futures (process_image lib) files finish i = Some (Inr r)"
    using assms(1,3) by (simp add: run_futures_lookup)
  moreover have "run_futures (process_image lib) files finish k = Some (Inl e)"
    using assms(1,2) by (simp add: run_futures_lookup)
  ultimately have raised: "process_images_parallel lib files finish = Some (Inl e)"
    unfolding process_images_parallel_def positions by (rule collect_results_first_error)
  have "files \<noteq> []" using assms(1) by auto
  with raised have "render_image_converter lib finish finish_encode w (Some s) =
      (s\<lparr>processed_images := None, zip_cache := Map.empty\<rparr>, Uncaught e)"
    if "uploaded_files w = files \<and> convert_clicked w \<and> needs_processing w s"
    using that by (simp add: render_image_converter_def Let_def)
  with raised assms(2) show ?thesis by (simp add: process_image_error)
qed

text \<open>
  Claim C2, amended, on the upload \<^verbatim>\<open>a.heic\<close>, \<^verbatim>\<open>bad.heic\<close>, \<^verbatim>\<open>c.jpg\<close> in a fresh session.
\<close>

theorem process_images_parallel_first_error_witness:
  "(1::nat) < length example_bad_files
   \<and> process_image example_lib (example_bad_files ! 1) = Inl (PyException ''ValueError'' ''bad'')
   \<and> process_image example_lib (example_bad_files ! 0) = Inr (example_images ! 0)
   \<and> needs_processing (example_request\<lparr>uploaded_files := example_bad_files,
        convert_clicked := True\<rparr>) (initial_session :: bytes session_state)
   \<and> process_images_parallel example_lib example_bad_files example_finish =
       Some (Inl (PyException ''ValueError'' ''bad''))
   \<and> render_image_converter example_lib example_finish example_finish
        (example_request\<lparr>uploaded_files := example_bad_files, convert_clicked := True\<rparr>)
        (Some initial_session) =
       (initial_session\<lparr>processed_images := None, zip_cache := Map.empty\<rparr>,
        Uncaught (PyException ''ValueError'' ''bad''))"
proof -
  have a: "(1::nat) < length example_bad_files" by (simp add: example_bad_files_def)
  have b: "process_image example_lib (example_bad_files ! 1) =
      Inl (PyException ''ValueError'' ''bad'')"
    by (simp add: example_bad_files_def example_process_image)
  have c: "\<forall>j < 1. \<exists>img. process_image example_lib (example_bad_files ! j) = Inr img"
    by (simp add: example_bad_files_def example_process_image)
  have d: "needs_processing (example_request\<lparr>uploaded_files := example_bad_files,
      convert_clicked := True\<rparr>) (initial_session :: bytes session_state)"
    by (simp add: needs_processing_def initial_session_def)
  have first: "process_image example_lib (example_bad_files ! 0) = Inr (example_images ! 0)"
    by (simp add: example_bad_files_def example_images_def example_process_image)
  from process_images_parallel_first_error [OF a b c, of example_finish
      "example_request\<lparr>uploaded_files := example_bad_files, convert_clicked := True\<rparr>"
      initial_session example_finish]
  show ?thesis using a b d first by simp
qed

section \<open>The encoder and the archive builder\<close>

lemma mset_as_completed: "mset (as_completed futures finish) = mset futures"
proof -
  have "mset (map snd (completion_order finish futures)) = mset (map snd (enumerate 0 futures))"
    unfolding mset_map mset_completion_order ..
  then show ?thesis by (simp add: as_completed_def)
qed

lemma write_results_eq:
  "write_results zf rs =
     zf @ concat (map (\<lambda>r. case stored_member r of Inr entry \<Rightarrow> [entry] | Inl e \<Rightarrow> []) rs)"
  by (induction rs arbitrary: zf)
     (auto simp: writestr_def stored_member_def split: sum.splits)

lemma written_are_stored:
  "image_mset Inr (mset (write_results [] rs)) =
     filter_mset (\<lambda>r. \<not> isl r) (image_mset stored_member (mset rs))"
proof -
  have "image_mset Inr
          (mset (concat (map (\<lambda>r. case stored_member r of Inr entry \<Rightarrow> [entry] | Inl e \<Rightarrow> []) rs)))
        = filter_mset (\<lambda>r. \<not> isl r) (image_mset stored_member (mset rs))"
    for rs :: "(py_exception + string \<times> bytes) list"
    by (induction rs) (auto split: sum.splits)
  then show ?thesis by (simp add: write_results_eq)
qed

lemma create_zip_members_mset:
  "image_mset Inr (mset (create_zip_members lib imgs fmt finish)) =
     filter_mset (\<lambda>r. \<not> isl r)
       (image_mset (\<lambda>img. stored_member (convert_to_buffer lib img fmt)) (mset imgs))"
  by (simp add: create_zip_members_def written_are_stored mset_as_completed
      multiset.map_comp comp_def)

text \<open>The same as a list in the order of the batch: only the order of the members varies.\<close>

lemma create_zip_members_list:
  "mset (create_zip_members lib imgs fmt finish) =
     mset (map (\<lambda>img. projr (stored_member (convert_to_buffer lib img fmt)))
            (filter (\<lambda>img. \<not> isl (stored_member (convert_to_buffer lib img fmt))) imgs))"
proof -
  let ?h = "\<lambda>img. stored_member (convert_to_buffer lib img fmt)"
  have "mset (create_zip_members lib imgs fmt finish)
      = image_mset projr
          (image_mset (Inr :: string \<times> bytes \<Rightarrow> py_exception + string \<times> bytes)
             (mset (create_zip_members lib imgs fmt finish)))"
    by (simp add: multiset.map_comp comp_def)
  also have "\<dots> = image_mset projr (filter_mset (\<lambda>r. \<not> isl r) (image_mset ?h (mset imgs)))"
    by (simp only: create_zip_members_mset)
  also have "\<dots> = image_mset (\<lambda>img. projr (?h img)) (filter_mset (\<lambda>img. \<not> isl (?h img)) (mset imgs))"
    by (simp add: filter_mset_image_mset multiset.map_comp comp_def)
  also have "\<dots> = mset (map (\<lambda>img. projr (?h img)) (filter (\<lambda>img. \<not> isl (?h img)) imgs))"
    by (simp only: mset_map mset_filter)
  finally show ?thesis .
qed

lemma sanitize_filename_id: "CHR 0x00 \<notin> set nm \<Longrightarrow> sanitize_filename nm = nm"
  unfolding sanitize_filename_def by (rule takeWhile_eq_all_conv [THEN iffD2]) auto

lemma zip_filename_plain: "plain_name nm \<Longrightarrow> zip_filename nm = Inr nm"
  by (simp add: plain_name_def zip_filename_def sanitize_filename_id)


lemma stored_member_name:
  "\<not> isl (stored_member (convert_to_buffer lib img fmt)) \<Longrightarrow>
     Inr (fst (projr (stored_member (convert_to_buffer lib img fmt)))) =
       zip_filename (stem (original_name img) @ ''.'' @ lower fmt)"
  by (auto simp: stored_member_def convert_to_buffer_def Let_def split: sum.splits)

lemma stored_member_plain:
  "plain_name (stem (original_name img) @ ''.'' @ lower fmt) \<Longrightarrow>
     stored_member (convert_to_buffer lib img fmt) = convert_to_buffer lib img fmt"
  by (auto simp: stored_member_def convert_to_buffer_def Let_def zip_filename_plain
      split: sum.splits)

lemma convert_to_buffer_isl:
  "isl (convert_to_buffer lib img fmt) = isl (Image_save lib (image_obj img) fmt)"
  by (auto simp: convert_to_buffer_def Let_def split: sum.splits)

lemma fst_convert_to_buffer:
  "\<not> isl (convert_to_buffer lib img fmt) \<Longrightarrow>
     fst (projr (convert_to_buffer lib img fmt)) = stem (original_name img) @ ''.'' @ lower fmt"
  by (auto simp: convert_to_buffer_def Let_def split: sum.splits)

lemma count_mset_map_filter:
  "count (mset (map f (filter P xs))) y = length (filter (\<lambda>x. f x = y \<and> P x) xs)"
  by (induction xs) auto

lemma length_create_zip_members:
  "length (create_zip_members lib imgs fmt finish) =
     length (filter (\<lambda>img. \<not> isl (stored_member (convert_to_buffer lib img fmt))) imgs)"
proof -
  have "length (create_zip_members lib imgs fmt finish) =
      size (mset (create_zip_members lib imgs fmt finish))"
    by simp
  also have "\<dots> = length (filter (\<lambda>img. \<not> isl (stored_member (convert_to_buffer lib img fmt))) imgs)"
    unfolding create_zip_members_list by (simp only: size_mset length_map)
  finally show ?thesis .
qed

text \<open>The names of the members, counted.\<close>

lemma member_name_count:
  "count (mset (map fst (create_zip_members lib imgs fmt finish))) n =
     length (filter (\<lambda>img. \<not> isl (Image_save lib (image_obj img) fmt)
                          \<and> zip_filename (stem (original_name img) @ ''.'' @ lower fmt) = Inr n) imgs)"
proof -
  let ?h = "\<lambda>img. stored_member (convert_to_buffer lib img fmt)"
  have "mset (map fst (create_zip_members lib imgs fmt finish)) =
      mset (map (\<lambda>img. fst (projr (?h img))) (filter (\<lambda>img. \<not> isl (?h img)) imgs))"
    unfolding mset_map create_zip_members_list by (simp add: multiset.map_comp comp_def)
  then have "count (mset (map fst (create_zip_members lib imgs fmt finish))) n =
      length (filter (\<lambda>img. fst (projr (?h img)) = n \<and> \<not> isl (?h img)) imgs)"
    by (simp only: count_mset_map_filter)
  also have "\<dots> = length (filter (\<lambda>img. \<not> isl (Image_save lib (image_obj img) fmt)
       \<and> zip_filename (stem (original_name img) @ ''.'' @ lower fmt) = Inr n) imgs)"
  proof (rule arg_cong [where f = length], rule filter_cong [OF refl])
    fix img
    show "(fst (projr (?h img)) = n \<and> \<not> isl (?h img)) =
        (\<not> isl (Image_save lib (image_obj img) fmt)
         \<and> zip_filename (stem (original_name img) @ ''.'' @ lower fmt) = Inr n)"
      by (auto simp: stored_member_def convert_to_buffer_def Let_def split: sum.splits)
  qed
  finally show ?thesis .
qed

lemma le_value_le16: "le_value (le16 n) = n mod 65536"
proof -
  have "n mod (256 * 256) = 256 * (n div 256 mod 256) + n mod 256"
    by (rule mod_mult2_eq)
  then have "n mod 65536 = 256 * (n div 256 mod 256) + n mod 256" by simp
  then show ?thesis by (simp add: le_value_def le16_def unat_of_nat)
qed

lemma le_value_le32: "le_value (le32 n) = n mod 4294967296"
proof -
  have a: "n mod (65536 * 65536) = 65536 * (n div 65536 mod 65536) + n mod 65536"
    by (rule mod_mult2_eq)
  have b: "m mod 65536 = 256 * (m div 256 mod 256) + m mod 256" for m :: nat
    using mod_mult2_eq [of m 256 256] by simp
  have c: "n div 65536 div 256 = n div 16777216" by (simp add: div_mult2_eq [symmetric])
  have "n mod 4294967296 = 65536 * (n div 65536 mod 65536) + n mod 65536" using a by simp
  also have "\<dots> = 65536 * (256 * (n div 16777216 mod 256) + n div 65536 mod 256)
      + (256 * (n div 256 mod 256) + n mod 256)"
    by (simp only: b [of "n div 65536"] b [of n] c)
  finally show ?thesis
    by (simp add: le_value_def le32_def unat_of_nat)
qed

lemma length_le16: "length (le16 n) = 2" by (simp add: le16_def)
lemma length_le32: "length (le32 n) = 4" by (simp add: le32_def)

lemma length_end_of_central_directory: "length (end_of_central_directory c s d) = 22"
  by (simp add: end_of_central_directory_def length_le16 length_le32)

lemma end_record_of_end_of_central_directory:
  "end_record (xs @ end_of_central_directory c s d) =
     Some (c mod 65536, s mod 4294967296, d mod 4294967296)"
proof -
  let ?e = "end_of_central_directory c s d"
  have tail: "drop (length (xs @ ?e) - 22) (xs @ ?e) = ?e"
    by (simp add: length_end_of_central_directory)
  have sig: "take 4 ?e = [0x50, 0x4B, 0x05, 0x06]"
    by (simp add: end_of_central_directory_def)
  have comment: "drop 20 ?e = [0, 0]"
    by (simp add: end_of_central_directory_def length_le16 length_le32) (simp add: le16_def)
  have count: "take 2 (drop 10 ?e) = le16 c"
    by (simp add: end_of_central_directory_def length_le16 length_le32)
  have size: "take 4 (drop 12 ?e) = le32 s"
    by (simp add: end_of_central_directory_def length_le16 length_le32)
  have offset: "take 4 (drop 16 ?e) = le32 d"
    by (simp add: end_of_central_directory_def length_le16 length_le32)
  show ?thesis
    unfolding end_record_def tail Let_def sig comment count size offset
    by (simp add: length_end_of_central_directory le_value_le16 le_value_le32)
qed

text \<open>
  The closed archive ends with an end-of-central-directory record whose fields are the
  number of members, the size of the central directory and its offset, each cut at the
  largest value of its field.
\<close>

lemma end_record_ZipFile_close:
  "end_record (ZipFile_close lib zf) =
     Some (min (length zf) 65535,
           min (length (central_directory lib 0 zf)) 4294967295,
           min (length (concat (map (\<lambda>(filename, data). local_file_record lib filename data) zf)))
             4294967295)"
  unfolding ZipFile_close_def Let_def
  apply (simp only: append_assoc [symmetric] if_distrib [of "\<lambda>e. _ @ e"] split: if_split)
  apply (intro conjI impI)
   apply (simp_all only: end_record_of_end_of_central_directory)
   apply (auto simp: ZIP_FILECOUNT_LIMIT_def ZIP64_LIMIT_def min_def)
  done

lemma empty_archive:
  "ZipFile_close lib [] =
     [0x50, 0x4B, 0x05, 0x06, 0, 0, 0, 0, 0, 0, 0, 0, 0, 0, 0, 0, 0, 0, 0, 0, 0, 0]"
  by (simp add: ZipFile_close_def ZIP_FILECOUNT_LIMIT_def ZIP64_LIMIT_def
      end_of_central_directory_def le16_def le32_def)

lemma split_on_no_sep: "sep \<notin> set s \<Longrightarrow> split_on sep s = [s]"
  by (induction s) auto

lemma path_name_plain:
  "CHR ''/'' \<notin> set s \<Longrightarrow> s \<noteq> [] \<Longrightarrow> s \<noteq> ''.'' \<Longrightarrow> path_name s = s"
  by (simp add: path_name_def split_on_no_sep)

lemma rfind_last:
  assumes "c \<notin> set ext"
  shows "rfind (base @ c # ext) c = int (length base)"
proof -
  have "takeWhile (\<lambda>x. x \<noteq> c) (rev ext @ c # rev base) = rev ext"
    using assms by (subst takeWhile_append2) auto
  then show ?thesis by (simp add: rfind_def)
qed

text \<open>
  For a plain file name \<^verbatim>\<open>base.ext\<close>, with both parts non-empty and no dot in the
  extension, the stem is \<^verbatim>\<open>base\<close>.
\<close>

lemma stem_strips_extension:
  assumes "base \<noteq> []" "ext \<noteq> []" "CHR ''.'' \<notin> set ext" "CHR ''/'' \<notin> set (base @ ext)"
  shows "stem (base @ ''.'' @ ext) = base"
proof -
  let ?nm = "base @ CHR ''.'' # ext"
  have ne: "?nm \<noteq> ''.''" using assms(1) by (cases base) auto
  have "path_name ?nm = ?nm" using assms(4) ne by (intro path_name_plain) auto
  moreover have "rfind ?nm CHR ''.'' = int (length base)" using assms(3) by (rule rfind_last)
  ultimately show ?thesis using assms(1,2) by (simp add: stem_def Let_def)
qed

lemma has_surrogate_byte: "has_surrogate s \<Longrightarrow> CHR 0xED \<in> set s"
  by (induction s rule: has_surrogate.induct) auto

lemma filter_length_mono:
  "(\<And>x. P x \<Longrightarrow> Q x) \<Longrightarrow> length (filter P xs) \<le> length (filter Q xs)"
  by (induction xs) auto

lemma example_stems:
  "stem ''a.heic'' = ''a''" "stem ''b.png'' = ''b''" "stem ''c.jpg'' = ''c''"
  "stem ''a.png'' = ''a''" "stem ''a.jpg'' = ''a''" "stem ''photo.HEIC'' = ''photo''"
  by (simp_all add: stem_def path_name_def rfind_def)

lemma example_nul_stems: "stem (example_nul_stem @ ''.png'') = example_nul_stem"
  using stem_strips_extension [of example_nul_stem "''png''"]
  by (simp add: example_nul_stem_def)

lemma example_long_stems:
  "stem (example_long_stem @ ''.png'') = example_long_stem"
  "stem (example_long_stem @ ''.jpg'') = example_long_stem"
  using stem_strips_extension [of example_long_stem "''png''"]
    stem_strips_extension [of example_long_stem "''jpg''"]
  by (simp_all add: example_long_stem_def)

lemma example_lower:
  "lower ''WebP'' = ''webp''" "lower ''PNG'' = ''png''" "lower ''webp'' = ''webp''"
  by (simp_all add: lower_def lower_char_def)

lemma example_plain:
  "plain_name ''a.webp''" "plain_name ''b.webp''" "plain_name ''c.webp''"
  by (simp_all add: plain_name_def)

lemma example_zip_filename:
  "zip_filename ''a.webp'' = Inr ''a.webp''" "zip_filename ''b.webp'' = Inr ''b.webp''"
  "zip_filename ''c.webp'' = Inr ''c.webp''" 
  "zip_filename (example_nul_stem @ ''.webp'') = Inr ''a''"
  by (simp_all add: zip_filename_def sanitize_filename_def example_nul_stem_def)

lemma example_long_filename:
  "zip_filename (example_long_stem @ ''.webp'') =
     Inl (PyException ''struct.error'' ''format requires 0 <= number <= 65535'')"
proof -
  let ?nm = "example_long_stem @ ''.webp''"
  have nul: "CHR 0x00 \<notin> set ?nm" by (simp add: example_long_stem_def)
  have "CHR 0xED \<notin> set ?nm" by (simp add: example_long_stem_def)
  then have "\<not> has_surrogate ?nm" using has_surrogate_byte by blast
  moreover have "65535 < length ?nm" by (simp add: example_long_stem_def)
  moreover have "?nm \<noteq> []" by simp
  ultimately show ?thesis by (simp add: zip_filename_def sanitize_filename_id [OF nul])
qed

lemma example_convert:
  "convert_to_buffer example_lib \<lparr>original_name = ''a.heic'', image_obj = [1]\<rparr> ''WebP'' =
     Inr (''a.webp'', [1, 4])"
  "convert_to_buffer example_lib \<lparr>original_name = ''b.png'', image_obj = [2]\<rparr> ''WebP'' =
     Inr (''b.webp'', [2, 4])"
  "convert_to_buffer example_lib \<lparr>original_name = ''c.jpg'', image_obj = [3]\<rparr> ''WebP'' =
     Inr (''c.webp'', [3, 4])"
  "convert_to_buffer example_lib \<lparr>original_name = ''b.png'', image_obj = [0]\<rparr> ''WebP'' =
     Inl (PyException ''OSError'' ''cannot write'')"
  "convert_to_buffer example_lib \<lparr>original_name = ''a.png'', image_obj = [1]\<rparr> ''WebP'' =
     Inr (''a.webp'', [1, 4])"
  "convert_to_buffer example_lib \<lparr>original_name = ''a.jpg'', image_obj = [2]\<rparr> ''WebP'' =
     Inr (''a.webp'', [2, 4])"
  "convert_to_buffer example_lib \<lparr>original_name = ''photo.HEIC'', image_obj = [1]\<rparr> ''PNG'' =
     Inr (''photo.png'', [1, 3])"
  by (simp_all add: convert_to_buffer_def example_lib_def example_stems example_lower)

lemma example_convert_nul:
  "convert_to_buffer example_lib \<lparr>original_name = example_nul_stem @ ''.png'', image_obj = [1]\<rparr>
      ''WebP'' = Inr (example_nul_stem @ ''.webp'', [1, 4])"
  by (simp add: convert_to_buffer_def example_lib_def example_nul_stems example_lower)

lemma example_convert_long:
  "convert_to_buffer example_lib \<lparr>original_name = example_long_stem @ ''.png'', image_obj = [1]\<rparr>
      ''WebP'' = Inr (example_long_stem @ ''.webp'', [1, 4])"
  "convert_to_buffer example_lib \<lparr>original_name = example_long_stem @ ''.png'', image_obj = [2]\<rparr>
      ''WebP'' = Inr (example_long_stem @ ''.webp'', [2, 4])"
  "convert_to_buffer example_lib \<lparr>original_name = example_long_stem @ ''.jpg'', image_obj = [2]\<rparr>
      ''WebP'' = Inr (example_long_stem @ ''.webp'', [2, 4])"
  by (simp_all add: convert_to_buffer_def example_lib_def example_long_stems example_lower)

lemma example_completion_two:
  "completion_order example_finish [x, y] = [(1, y), (0, x)]"
  by (simp add: completion_order_def example_finish_def)

lemma example_completion_one: "completion_order example_finish [x] = [(0, x)]"
  by (simp add: completion_order_def)


lemma example_members_same_long_stem:
  "create_zip_members example_lib example_same_long_stem ''WebP'' example_finish = []"
  by (simp add: create_zip_members_def as_completed_def example_same_long_stem_def
      example_convert_long example_completion_two writestr_def example_long_filename)

lemma example_members_nul:
  "create_zip_members example_lib example_images_nul ''WebP'' example_finish = [(''a'', [1, 4])]"
  by (simp add: create_zip_members_def as_completed_def example_images_nul_def
      example_convert_nul example_completion_one writestr_def example_zip_filename)




text \<open>
  Claim C4 as stated fails: the archive stores a name cut at its first NUL character. The
  one image of the batch encodes, its computed name is \<^verbatim>\<open>a\<close>, NUL, \<^verbatim>\<open>b.webp\<close>, and the
  one member of the archive is named \<^verbatim>\<open>a\<close>.
\<close>

theorem member_name_cut_counterexample:
  "convert_to_buffer example_lib (example_images_nul ! 0) ''WebP'' =
     Inr (stem (original_name (example_images_nul ! 0)) @ ''.'' @ lower ''WebP'', [1, 4])
   \<and> create_zip_members example_lib example_images_nul ''WebP'' example_finish =
       [(''a'', [1, 4])]
   \<and> stem (original_name (example_images_nul ! 0)) @ ''.'' @ lower ''WebP'' \<noteq> ''a''"
proof -
  have nm: "stem (original_name (example_images_nul ! 0)) @ ''.'' @ lower ''WebP'' =
      example_nul_stem @ ''.webp''"
    by (simp add: example_images_nul_def example_nul_stems example_lower)
  have "convert_to_buffer example_lib (example_images_nul ! 0) ''WebP'' =
      Inr (example_nul_stem @ ''.webp'', [1, 4])"
    by (simp add: example_images_nul_def example_convert_nul)
  moreover have "example_nul_stem @ ''.webp'' \<noteq> ''a''" by (simp add: example_nul_stem_def)
  ultimately show ?thesis unfolding nm using example_members_nul by blast
qed

text \<open>
  Claim C4, amended. The name that \<^verbatim>\<open>convert_to_buffer\<close> computes for a member is the stem
  of the original name, a dot and the target format in lower case; for a plain name
  \<^verbatim>\<open>base.ext\<close> this is \<^verbatim>\<open>base\<close> with the extension replaced. When every image of a batch
  encodes and every computed name is plain (no NUL character, no lone surrogate, at most
  65535 bytes; it is never empty), the archive has as many members as the batch has images, and their names
  are the computed names, one for each image.
\<close>

theorem member_names_from_stem:
  "(convert_to_buffer lib img fmt = Inr (nm, buf) \<longrightarrow>
      nm = stem (original_name img) @ ''.'' @ lower fmt)
   \<and> (base \<noteq> [] \<and> ext \<noteq> [] \<and> CHR ''.'' \<notin> set ext \<and> CHR ''/'' \<notin> set (base @ ext)
        \<and> original_name img = base @ ''.'' @ ext
        \<and> convert_to_buffer lib img fmt = Inr (nm, buf) \<longrightarrow>
      nm = base @ ''.'' @ lower fmt)
   \<and> ((\<forall>img \<in> set imgs. \<exists>buf. Image_save lib (image_obj img) fmt = Inr buf)
        \<and> (\<forall>img \<in> set imgs. plain_name (stem (original_name img) @ ''.'' @ lower fmt)) \<longrightarrow>
        length (create_zip_members lib imgs fmt finish) = length imgs
        \<and> mset (map fst (create_zip_members lib imgs fmt finish)) =
            mset (map (\<lambda>img. stem (original_name img) @ ''.'' @ lower fmt) imgs))"
proof (intro conjI impI)
  show nm: "nm = stem (original_name img) @ ''.'' @ lower fmt"
    if "convert_to_buffer lib img fmt = Inr (nm, buf)"
    using that by (auto simp: convert_to_buffer_def Let_def split: sum.splits)
  show "nm = base @ ''.'' @ lower fmt"
    if "base \<noteq> [] \<and> ext \<noteq> [] \<and> CHR ''.'' \<notin> set ext \<and> CHR ''/'' \<notin> set (base @ ext)
        \<and> original_name img = base @ ''.'' @ ext
        \<and> convert_to_buffer lib img fmt = Inr (nm, buf)"
    using that nm stem_strips_extension [of base ext] by simp
next
  let ?h = "\<lambda>img. stored_member (convert_to_buffer lib img fmt)"
  assume a: "(\<forall>img \<in> set imgs. \<exists>buf. Image_save lib (image_obj img) fmt = Inr buf)
        \<and> (\<forall>img \<in> set imgs. plain_name (stem (original_name img) @ ''.'' @ lower fmt))"
  have same: "?h img = convert_to_buffer lib img fmt" if "img \<in> set imgs" for img
    using a that by (simp add: stored_member_plain)
  have ok: "\<not> isl (?h img)" if "img \<in> set imgs" for img
    using a that by (auto simp: same convert_to_buffer_isl)
  have name: "fst (projr (?h img)) = stem (original_name img) @ ''.'' @ lower fmt"
    if "img \<in> set imgs" for img
    using ok [OF that] same [OF that] by (simp add: fst_convert_to_buffer)
  have all: "filter (\<lambda>img. \<not> isl (?h img)) imgs = imgs"
    using ok by (simp add: filter_id_conv)
  show "length (create_zip_members lib imgs fmt finish) = length imgs"
    by (simp only: length_create_zip_members all)
  have "mset (map fst (create_zip_members lib imgs fmt finish)) =
      mset (map (\<lambda>img. fst (projr (?h img))) imgs)"
    unfolding mset_map create_zip_members_list all by (simp add: multiset.map_comp comp_def)
  also have "\<dots> = mset (map (\<lambda>img. stem (original_name img) @ ''.'' @ lower fmt) imgs)"
    using name by (simp cong: map_cong)
  finally show "mset (map fst (create_zip_members lib imgs fmt finish)) =
      mset (map (\<lambda>img. stem (original_name img) @ ''.'' @ lower fmt) imgs)" .
qed

text \<open>
  Claim C4, amended, on the image named \<^verbatim>\<open>photo.HEIC\<close> with target \<^verbatim>\<open>PNG\<close>, which becomes
  \<^verbatim>\<open>photo.png\<close>, and on the three example images with target \<^verbatim>\<open>WebP\<close>.
\<close>

theorem member_names_from_stem_witness:
  "convert_to_buffer example_lib \<lparr>original_name = ''photo.HEIC'', image_obj = [1]\<rparr> ''PNG'' =
     Inr (''photo.png'', [1, 3])
   \<and> ''photo'' \<noteq> [] \<and> ''HEIC'' \<noteq> [] \<and> CHR ''.'' \<notin> set ''HEIC'' \<and> CHR ''/'' \<notin> set (''photo'' @ ''HEIC'')
   \<and> ''photo.png'' = ''photo'' @ ''.'' @ lower ''PNG''
   \<and> Image_save example_lib (image_obj (example_images ! 0)) ''WebP'' = Inr [1, 4]
   \<and> Image_save example_lib (image_obj (example_images ! 1)) ''WebP'' = Inr [2, 4]
   \<and> Image_save example_lib (image_obj (example_images ! 2)) ''WebP'' = Inr [3, 4]
   \<and> plain_name (stem (original_name (example_images ! 0)) @ ''.'' @ lower ''WebP'')
   \<and> plain_name (stem (original_name (example_images ! 1)) @ ''.'' @ lower ''WebP'')
   \<and> plain_name (stem (original_name (example_images ! 2)) @ ''.'' @ lower ''WebP'')
   \<and> length (create_zip_members example_lib example_images ''WebP'' example_finish) = 3
   \<and> mset (map fst (create_zip_members example_lib example_images ''WebP'' example_finish)) =
       {#''a.webp'', ''b.webp'', ''c.webp''#}"
proof -
  have a: "convert_to_buffer example_lib \<lparr>original_name = ''photo.HEIC'', image_obj = [1]\<rparr> ''PNG'' =
     Inr (''photo.png'', [1, 3])"
    by (rule example_convert)
  have b: "\<forall>img \<in> set example_images.
      \<exists>buf. Image_save example_lib (image_obj img) ''WebP'' = Inr buf"
    by (simp add: example_images_def example_lib_def)
  have c: "Image_save example_lib (image_obj (example_images ! 0)) ''WebP'' = Inr [1, 4]"
    "Image_save example_lib (image_obj (example_images ! 1)) ''WebP'' = Inr [2, 4]"
    "Image_save example_lib (image_obj (example_images ! 2)) ''WebP'' = Inr [3, 4]"
    by (simp_all add: example_images_def example_lib_def)
  have d: "plain_name (stem (original_name (example_images ! 0)) @ ''.'' @ lower ''WebP'')"
    "plain_name (stem (original_name (example_images ! 1)) @ ''.'' @ lower ''WebP'')"
    "plain_name (stem (original_name (example_images ! 2)) @ ''.'' @ lower ''WebP'')"
    using example_plain by (simp_all add: example_images_def example_stems example_lower)
  then have e: "\<forall>img \<in> set example_images.
      plain_name (stem (original_name img) @ ''.'' @ lower ''WebP'')"
    by (simp add: example_images_def)
  from member_names_from_stem [of example_lib "\<lparr>original_name = ''photo.HEIC'', image_obj = [1]\<rparr>"
      "''PNG''" "''photo.png''" "[1, 3]" "''photo''" "''HEIC''"]
    member_names_from_stem [of example_lib _ "''WebP''" _ _ _ _ example_images example_finish]
  show ?thesis using a b c d e
    by (simp add: example_images_def example_stems example_lower)
qed

text \<open>
  Claim C9 as stated fails: of two images that share a stem of 65536 bytes, both encode and
  neither is written, since \<^verbatim>\<open>writestr\<close> raises for their name and the handler goes on.
\<close>

theorem encoded_items_not_written_counterexample:
  "stem (original_name (example_same_long_stem ! 0)) =
     stem (original_name (example_same_long_stem ! 1))
   \<and> convert_to_buffer example_lib (example_same_long_stem ! 0) ''WebP'' =
       Inr (example_long_stem @ ''.webp'', [1, 4])
   \<and> convert_to_buffer example_lib (example_same_long_stem ! 1) ''WebP'' =
       Inr (example_long_stem @ ''.webp'', [2, 4])
   \<and> create_zip_members example_lib example_same_long_stem ''WebP'' example_finish = []"
  by (simp add: example_members_same_long_stem)
     (simp add: example_same_long_stem_def example_convert_long example_long_stems)

text \<open>
  Claim C9, amended. Names are not de-duplicated: for every name \<open>n\<close>, the archive has as
  many members named \<open>n\<close> as the batch has images that encode and whose computed name
  \<^verbatim>\<open>writestr\<close> stores as \<open>n\<close>. So every image with the stem \<open>s\<close> that encodes is a member of
  its own when the name made of \<open>s\<close>, a dot and the target format in lower case is plain;
  and when all computed names of the batch are plain, these are all the members of that
  name, and the number of members is the number of images that encode.
\<close>

theorem colliding_names_all_written:
  "count (mset (map fst (create_zip_members lib imgs fmt finish))) n =
     length (filter (\<lambda>img. \<not> isl (Image_save lib (image_obj img) fmt)
                \<and> zip_filename (stem (original_name img) @ ''.'' @ lower fmt) = Inr n) imgs)
   \<and> (plain_name (s @ ''.'' @ lower fmt) \<longrightarrow>
        length (filter (\<lambda>img. stem (original_name img) = s
                  \<and> \<not> isl (Image_save lib (image_obj img) fmt)) imgs)
        \<le> count (mset (map fst (create_zip_members lib imgs fmt finish))) (s @ ''.'' @ lower fmt))
   \<and> ((\<forall>img \<in> set imgs. plain_name (stem (original_name img) @ ''.'' @ lower fmt)) \<longrightarrow>
        count (mset (map fst (create_zip_members lib imgs fmt finish))) (s @ ''.'' @ lower fmt) =
          length (filter (\<lambda>img. stem (original_name img) = s
                    \<and> \<not> isl (Image_save lib (image_obj img) fmt)) imgs)
        \<and> length (create_zip_members lib imgs fmt finish) =
            length (filter (\<lambda>img. \<not> isl (Image_save lib (image_obj img) fmt)) imgs))"
proof (intro conjI impI)
  show "count (mset (map fst (create_zip_members lib imgs fmt finish))) n =
     length (filter (\<lambda>img. \<not> isl (Image_save lib (image_obj img) fmt)
                \<and> zip_filename (stem (original_name img) @ ''.'' @ lower fmt) = Inr n) imgs)"
    by (rule member_name_count)
next
  assume "plain_name (s @ ''.'' @ lower fmt)"
  then have "zip_filename (s @ ''.'' @ lower fmt) = Inr (s @ ''.'' @ lower fmt)"
    by (rule zip_filename_plain)
  then show "length (filter (\<lambda>img. stem (original_name img) = s
                  \<and> \<not> isl (Image_save lib (image_obj img) fmt)) imgs)
        \<le> count (mset (map fst (create_zip_members lib imgs fmt finish))) (s @ ''.'' @ lower fmt)"
    unfolding member_name_count by (intro filter_length_mono) auto
next
  assume plain: "\<forall>img \<in> set imgs. plain_name (stem (original_name img) @ ''.'' @ lower fmt)"
  have "filter (\<lambda>img. \<not> isl (Image_save lib (image_obj img) fmt)
                \<and> zip_filename (stem (original_name img) @ ''.'' @ lower fmt) =
                    Inr (s @ ''.'' @ lower fmt)) imgs =
      filter (\<lambda>img. stem (original_name img) = s
                \<and> \<not> isl (Image_save lib (image_obj img) fmt)) imgs"
  proof (rule filter_cong [OF refl])
    fix img assume "img \<in> set imgs"
    then have z: "zip_filename (stem (original_name img) @ ''.'' @ lower fmt) =
        Inr (stem (original_name img) @ ''.'' @ lower fmt)"
      using plain zip_filename_plain by blast
    show "(\<not> isl (Image_save lib (image_obj img) fmt)
          \<and> zip_filename (stem (original_name img) @ ''.'' @ lower fmt) =
              Inr (s @ ''.'' @ lower fmt)) =
        (stem (original_name img) = s \<and> \<not> isl (Image_save lib (image_obj img) fmt))"
      unfolding z by auto
  qed
  then show "count (mset (map fst (create_zip_members lib imgs fmt finish)))
        (s @ ''.'' @ lower fmt) =
      length (filter (\<lambda>img. stem (original_name img) = s
                \<and> \<not> isl (Image_save lib (image_obj img) fmt)) imgs)"
    by (simp only: member_name_count)
  have "filter (\<lambda>img. \<not> isl (stored_member (convert_to_buffer lib img fmt))) imgs =
      filter (\<lambda>img. \<not> isl (Image_save lib (image_obj img) fmt)) imgs"
    using plain by (auto intro!: filter_cong simp: stored_member_plain convert_to_buffer_isl)
  then show "length (create_zip_members lib imgs fmt finish) =
      length (filter (\<lambda>img. \<not> isl (Image_save lib (image_obj img) fmt)) imgs)"
    by (simp only: length_create_zip_members)
qed

text \<open>
  Claim C9, amended, on the images \<^verbatim>\<open>a.png\<close> and \<^verbatim>\<open>a.jpg\<close>: the archive has two members
  named \<^verbatim>\<open>a.webp\<close>.
\<close>

theorem colliding_names_all_written_witness:
  "plain_name (stem (original_name (example_same_stem ! 0)) @ ''.'' @ lower ''WebP'')
   \<and> plain_name (stem (original_name (example_same_stem ! 1)) @ ''.'' @ lower ''WebP'')
   \<and> plain_name (''a'' @ ''.'' @ lower ''WebP'')
   \<and> count (mset (map fst (create_zip_members example_lib example_same_stem ''WebP''
        example_finish))) ''a.webp'' = 2
   \<and> length (create_zip_members example_lib example_same_stem ''WebP'' example_finish) = 2"
proof -
  have a: "plain_name (stem (original_name (example_same_stem ! 0)) @ ''.'' @ lower ''WebP'')"
    "plain_name (stem (original_name (example_same_stem ! 1)) @ ''.'' @ lower ''WebP'')"
    "plain_name (''a'' @ ''.'' @ lower ''WebP'')"
    using example_plain by (simp_all add: example_same_stem_def example_stems example_lower)
  then have b: "\<forall>img \<in> set example_same_stem.
      plain_name (stem (original_name img) @ ''.'' @ lower ''WebP'')"
    by (simp add: example_same_stem_def)
  from colliding_names_all_written [of example_lib example_same_stem "''WebP''" example_finish
      "''a.webp''" "''a''"]
  show ?thesis using a b
    by (simp add: example_same_stem_def example_stems example_lower example_lib_def)
qed

text \<open>
  Claim C10. For every target format, \<^verbatim>\<open>create_zip\<close> on the empty batch writes no member
  and returns the 22 bytes of an end-of-central-directory record with no entries: bytes
  that are not empty, that \<^verbatim>\<open>is_zipfile\<close> accepts, and whose end record gives no entry and
  an empty central directory at offset 0.
\<close>

theorem create_zip_empty_batch:
  "create_zip_members lib [] fmt finish = []
   \<and> create_zip lib [] fmt finish =
       [0x50, 0x4B, 0x05, 0x06, 0, 0, 0, 0, 0, 0, 0, 0, 0, 0, 0, 0, 0, 0, 0, 0, 0, 0]
   \<and> create_zip lib [] fmt finish \<noteq> []
   \<and> is_zipfile (create_zip lib [] fmt finish)
   \<and> end_record (create_zip lib [] fmt finish) = Some (0, 0, 0)"
proof -
  have members: "create_zip_members lib [] fmt finish = []"
    by (simp add: create_zip_members_def as_completed_def completion_order_def)
  then have bytes: "create_zip lib [] fmt finish =
      [0x50, 0x4B, 0x05, 0x06, 0, 0, 0, 0, 0, 0, 0, 0, 0, 0, 0, 0, 0, 0, 0, 0, 0, 0]"
    by (simp add: create_zip_def empty_archive)
  have "create_zip lib [] fmt finish = ZipFile_close lib []"
    by (simp add: create_zip_def members)
  then have "end_record (create_zip lib [] fmt finish) = Some (0, 0, 0)"
    by (simp add: end_record_ZipFile_close)
  with members bytes show ?thesis by (simp add: is_zipfile_def)
qed

text \<open>Claim C10, with the example library and the target \<^verbatim>\<open>PNG\<close>.\<close>

theorem create_zip_empty_batch_witness:
  "create_zip_members example_lib [] ''PNG'' example_finish = []
   \<and> length (create_zip example_lib [] ''PNG'' example_finish) = 22
   \<and> is_zipfile (create_zip example_lib [] ''PNG'' example_finish)"
proof -
  note t = create_zip_empty_batch [of example_lib "''PNG''" example_finish]
  from t have "length (create_zip example_lib [] ''PNG'' example_finish) =
      length [0x50, 0x4B, 0x05, 0x06, 0, 0, 0, 0, 0, 0, 0, 0, 0, 0, 0, 0, 0, 0, 0, 0, 0,
        0 :: 8 word]"
    by (simp only:)
  then have "length (create_zip example_lib [] ''PNG'' example_finish) = 22" by simp
  with t show ?thesis by blast
qed

section \<open>The page and its cache\<close>

lemma not_needs_processing_batch:
  "\<not> needs_processing w s \<Longrightarrow> \<exists>imgs. processed_images s = Some imgs"
  by (auto simp: needs_processing_def)

lemma not_needs_processing_format:
  "\<not> needs_processing w s \<Longrightarrow> last_format s = Some (selected_format w)"
  by (auto simp: needs_processing_def)

lemma needs_processing_same_request:
  "uploaded_files w' = uploaded_files w \<Longrightarrow> selected_format w' = selected_format w \<Longrightarrow>
   needs_processing w' (s\<lparr>zip_cache := c\<rparr>) = needs_processing w s"
  by (simp add: needs_processing_def cong: option.case_cong)

lemma render_fresh_session:
  "render_image_converter lib fd fe w None =
     render_image_converter lib fd fe w (Some initial_session)"
  by (simp add: render_image_converter_def)

lemma render_convert:
  assumes "uploaded_files w \<noteq> []" "needs_processing w s" "convert_clicked w"
    and "process_images_parallel lib (uploaded_files w) fd = Some (Inr imgs)"
  shows "render_image_converter lib fd fe w (Some s) =
           (s\<lparr>processed_images := Some imgs, zip_cache := Map.empty,
              last_files_processed := Some (uploaded_files w),
              last_format := Some (selected_format w)\<rparr>, Rerun)"
  using assms by (simp add: render_image_converter_def Let_def)

lemma render_results:
  assumes "uploaded_files w \<noteq> []" "\<not> needs_processing w s" "processed_images s = Some imgs"
  shows "render_image_converter lib fd fe w (Some s) =
           (case zip_if_needed lib fe imgs (selected_format w) (zip_cache s) of
              (built, zip_data, cache) \<Rightarrow>
                (s\<lparr>zip_cache := cache\<rparr>,
                 Results (if show_images w then imgs else []) built zip_data
                   (''converted_images_'' @ lower (selected_format w) @ ''.zip'')))"
  using assms by (simp add: render_image_converter_def Let_def)

lemma render_reset:
  assumes "uploaded_files w \<noteq> []" "needs_processing w s"
  shows "zip_cache (fst (render_image_converter lib fd fe w (Some s))) = Map.empty"
    and "\<forall>shown built zip_data file_name.
           snd (render_image_converter lib fd fe w (Some s)) \<noteq>
             Results shown built zip_data file_name"
  using assms
  by (auto simp: render_image_converter_def Let_def split: option.splits sum.splits)

lemma render_reset_no_click:
  assumes "uploaded_files w \<noteq> []" "needs_processing w s" "\<not> convert_clicked w"
  shows "render_image_converter lib fd fe w (Some s) =
           (s\<lparr>processed_images := None, zip_cache := Map.empty\<rparr>, ReadyToConvert)"
  using assms by (simp add: render_image_converter_def Let_def)

text \<open>In every run, the keys of the cache stay within the format of the last conversion.\<close>

lemma cache_within_last_format:
  assumes "dom (zip_cache s) \<subseteq> {f. last_format s = Some f}"
  shows "dom (zip_cache (fst (render_image_converter lib fd fe w (Some s)))) \<subseteq>
           {f. last_format (fst (render_image_converter lib fd fe w (Some s))) = Some f}"
proof (cases "uploaded_files w = []")
  case True
  then show ?thesis using assms by (simp add: render_image_converter_def)
next
  case files: False
  show ?thesis
  proof (cases "needs_processing w s")
    case True
    then show ?thesis using files render_reset(1) [of w s lib fd fe] by simp
  next
    case False
    then obtain imgs where imgs: "processed_images s = Some imgs"
      using not_needs_processing_batch by blast
    show ?thesis
      using assms not_needs_processing_format [OF False]
      unfolding render_results [OF files False imgs]
      by (auto simp: zip_if_needed_def Let_def split: option.splits)
  qed
qed

lemma example_converted:
  "example_converted_session =
     \<lparr>processed_images = Some example_images,
      last_files_processed = Some example_files, last_format = Some ''WebP'',
      zip_cache = Map.empty\<rparr>"
proof -
  let ?w = "example_request\<lparr>convert_clicked := True\<rparr>"
  have a: "uploaded_files ?w \<noteq> []" by (simp add: example_request_def example_files_def)
  have b: "needs_processing ?w initial_session"
    by (simp add: needs_processing_def initial_session_def)
  have c: "convert_clicked ?w" by simp
  have d: "process_images_parallel example_lib (uploaded_files ?w) example_finish =
      Some (Inr example_images)"
    by (simp add: example_request_def example_decode)
  show ?thesis
    unfolding example_converted_session_def render_fresh_session render_convert [OF a b c d]
    by (simp add: initial_session_def example_request_def)
qed

lemma example_request_files: "uploaded_files example_request \<noteq> []"
  by (simp add: example_request_def example_files_def)

lemma example_request_current: "\<not> needs_processing example_request example_converted_session"
  by (simp add: example_converted needs_processing_def example_request_def)
     (simp add: example_files_def)

lemma example_members:
  "create_zip_members example_lib example_images ''WebP'' example_finish =
     [(''b.webp'', [2, 4]), (''c.webp'', [3, 4]), (''a.webp'', [1, 4])]"
  by (simp add: create_zip_members_def as_completed_def example_images_def
      example_convert example_completion_three writestr_def example_zip_filename)

lemma example_zip:
  "create_zip example_lib example_images ''WebP'' example_finish = example_archive"
  unfolding create_zip_def example_members
  by (simp add: ZipFile_close_def ZIP_FILECOUNT_LIMIT_def ZIP64_LIMIT_def example_lib_def
      end_of_central_directory_def le16_def le32_def example_archive_def)

lemma example_cached:
  "example_cached_session =
     example_converted_session\<lparr>zip_cache := [''WebP'' \<mapsto> example_archive]\<rparr>"
proof -
  have b: "processed_images example_converted_session = Some example_images"
    by (simp add: example_converted)
  have c: "zip_cache example_converted_session = Map.empty" by (simp add: example_converted)
  have d: "selected_format example_request = ''WebP''" by (simp add: example_request_def)
  show ?thesis
    unfolding example_cached_session_def
      render_results [OF example_request_files example_request_current b]
    by (simp add: c d zip_if_needed_def example_zip Let_def)
qed

lemma example_cached_current: "\<not> needs_processing example_request example_cached_session"
  unfolding example_cached
  using example_request_current by (simp add: needs_processing_same_request)

text \<open>
  Claim C5. In a session whose processed images are current for the request and whose
  cache has no archive for the selected format, a run of the page calls \<^verbatim>\<open>create_zip\<close>
  once and offers its result; a second run for the same files and format, whatever the
  libraries and the thread pool would do then, does not call \<^verbatim>\<open>create_zip\<close>, offers the
  same bytes under the same file name and leaves the session as it is.
\<close>

theorem same_format_twice:
  assumes "uploaded_files w \<noteq> []" and "\<not> needs_processing w s"
      and "zip_cache s (selected_format w) = None"
      and "uploaded_files w' = uploaded_files w" and "selected_format w' = selected_format w"
  shows "\<exists>s1 imgs shown shown' file_name.
           processed_images s = Some imgs
         \<and> render_image_converter lib fd fe w (Some s) =
             (s1, Results shown True (create_zip lib imgs (selected_format w) fe) file_name)
         \<and> render_image_converter lib' fd' fe' w' (Some s1) =
             (s1, Results shown' False (create_zip lib imgs (selected_format w) fe) file_name)"
proof -
  from assms(2) obtain imgs where imgs: "processed_images s = Some imgs"
    using not_needs_processing_batch by blast
  let ?z = "create_zip lib imgs (selected_format w) fe"
  let ?s1 = "s\<lparr>zip_cache := (zip_cache s)(selected_format w \<mapsto> ?z)\<rparr>"
  let ?fn = "''converted_images_'' @ lower (selected_format w) @ ''.zip''"
  have first: "render_image_converter lib fd fe w (Some s) =
      (?s1, Results (if show_images w then imgs else []) True ?z ?fn)"
    using assms(1,2,3) imgs by (simp add: render_results zip_if_needed_def Let_def)
  have np: "\<not> needs_processing w' ?s1"
    using assms(2,4,5) by (simp add: needs_processing_same_request)
  have "render_image_converter lib' fd' fe' w' (Some ?s1) =
      (?s1, Results (if show_images w' then imgs else []) False ?z ?fn)"
    using assms(1,4,5) np imgs by (simp add: render_results zip_if_needed_def)
  with first imgs show ?thesis by blast
qed

text \<open>
  Claim C5, in the example session after the conversion to \<^verbatim>\<open>WebP\<close>; in the second run the
  archive library would write other local records, had it been called.
\<close>

theorem same_format_twice_witness:
  "uploaded_files example_request \<noteq> []
   \<and> \<not> needs_processing example_request example_converted_session
   \<and> zip_cache example_converted_session (selected_format example_request) = None
   \<and> (\<exists>s1 shown shown' file_name.
         render_image_converter example_lib example_finish example_finish example_request
             (Some example_converted_session) =
           (s1, Results shown True example_archive file_name)
       \<and> render_image_converter (example_lib\<lparr>local_file_record := (\<lambda>filename data. [])\<rparr>) id id
             (example_request\<lparr>show_images := True\<rparr>) (Some s1) =
           (s1, Results shown' False example_archive file_name))"
proof -
  have c: "zip_cache example_converted_session (selected_format example_request) = None"
    by (simp add: example_converted)
  have d: "processed_images example_converted_session = Some example_images"
    by (simp add: example_converted)
  from same_format_twice [OF example_request_files example_request_current c,
      of "example_request\<lparr>show_images := True\<rparr>" example_lib example_finish example_finish
        "example_lib\<lparr>local_file_record := (\<lambda>filename data. [])\<rparr>" id id]
  obtain s1 shown shown' file_name where
    "render_image_converter example_lib example_finish example_finish example_request
        (Some example_converted_session) =
      (s1, Results shown True
             (create_zip example_lib example_images (selected_format example_request)
                example_finish) file_name)"
    "render_image_converter (example_lib\<lparr>local_file_record := (\<lambda>filename data. [])\<rparr>) id id
        (example_request\<lparr>show_images := True\<rparr>) (Some s1) =
      (s1, Results shown' False
             (create_zip example_lib example_images (selected_format example_request)
                example_finish) file_name)"
    using d by auto
  moreover have "selected_format example_request = ''WebP''" by (simp add: example_request_def)
  ultimately show ?thesis
    using example_request_files example_request_current c by (simp add: example_zip)
qed


text \<open>
  Claim C6 as stated fails: with the archive for \<^verbatim>\<open>WebP\<close> in the cache, a run for the same
  files that selects \<^verbatim>\<open>PNG\<close> empties the cache, drops the processed images and shows the
  "Convert All" button again; no archive is produced and the \<^verbatim>\<open>WebP\<close> entry is gone.
\<close>

theorem format_change_keeps_cache_counterexample:
  "zip_cache example_cached_session ''WebP'' = Some example_archive
   \<and> zip_cache (fst (render_image_converter example_lib example_finish example_finish
          (example_request\<lparr>selected_format := ''PNG''\<rparr>) (Some example_cached_session)))
        ''WebP'' = None
   \<and> processed_images (fst (render_image_converter example_lib example_finish example_finish
          (example_request\<lparr>selected_format := ''PNG''\<rparr>) (Some example_cached_session))) = None
   \<and> snd (render_image_converter example_lib example_finish example_finish
          (example_request\<lparr>selected_format := ''PNG''\<rparr>) (Some example_cached_session)) =
        ReadyToConvert"
proof -
  let ?w = "example_request\<lparr>selected_format := ''PNG''\<rparr>"
  have a: "uploaded_files ?w \<noteq> []" using example_request_files by simp
  have b: "needs_processing ?w example_cached_session"
    by (simp add: needs_processing_def example_cached example_converted)
  have c: "\<not> convert_clicked ?w" by (simp add: example_request_def)
  show ?thesis
    unfolding render_reset_no_click [OF a b c] by (simp add: example_cached)
qed

text \<open>
  Claim C6, amended. A run without uploaded files leaves the session as it is. A run needs
  processing when it selects a format other than the one of the last conversion, or when
  the session has no processed images. A run that needs processing empties the whole
  cache, shows no results and discards the processed images: without a click on "Convert
  All" the session is left with no processed images and the page shows the button; with a
  click the processed images are those of a fresh decoding of the upload, or none when it
  raises. Every other run keeps the processed images and each entry of the cache and has,
  afterwards, exactly the old keys and the selected format as keys. The cache is never
  emptied in part, and its keys never go beyond the format of the last conversion.
\<close>

theorem cache_reset_policy:
  "(uploaded_files w = [] \<longrightarrow> fst (render_image_converter lib fd fe w (Some s)) = s)
   \<and> (Some (selected_format w) \<noteq> last_format s \<longrightarrow> needs_processing w s)
   \<and> (processed_images s = None \<longrightarrow> needs_processing w s)
   \<and> (uploaded_files w \<noteq> [] \<and> needs_processing w s \<longrightarrow>
        zip_cache (fst (render_image_converter lib fd fe w (Some s))) = Map.empty
        \<and> (\<forall>shown built zip_data file_name.
             snd (render_image_converter lib fd fe w (Some s)) \<noteq>
               Results shown built zip_data file_name)
        \<and> processed_images (fst (render_image_converter lib fd fe w (Some s))) =
            (if convert_clicked w
             then (case process_images_parallel lib (uploaded_files w) fd of
                     Some (Inr images) \<Rightarrow> Some images
                   | Some (Inl e) \<Rightarrow> None
                   | None \<Rightarrow> None)
             else None)
        \<and> (\<not> convert_clicked w \<longrightarrow>
             snd (render_image_converter lib fd fe w (Some s)) = ReadyToConvert))
   \<and> (uploaded_files w \<noteq> [] \<and> \<not> needs_processing w s \<longrightarrow>
        processed_images (fst (render_image_converter lib fd fe w (Some s))) =
          processed_images s
        \<and> (\<forall>k \<in> dom (zip_cache s).
            zip_cache (fst (render_image_converter lib fd fe w (Some s))) k = zip_cache s k)
        \<and> dom (zip_cache (fst (render_image_converter lib fd fe w (Some s)))) =
            insert (selected_format w) (dom (zip_cache s)))
   \<and> (dom (zip_cache s) \<subseteq> {f. last_format s = Some f} \<longrightarrow>
        dom (zip_cache (fst (render_image_converter lib fd fe w (Some s)))) \<subseteq>
          {f. last_format (fst (render_image_converter lib fd fe w (Some s))) = Some f})"
proof (intro conjI impI)
  show "fst (render_image_converter lib fd fe w (Some s)) = s" if "uploaded_files w = []"
    using that by (simp add: render_image_converter_def)
  show "needs_processing w s" if "Some (selected_format w) \<noteq> last_format s"
    using that by (simp add: needs_processing_def)
  show "needs_processing w s" if "processed_images s = None"
    using that by (simp add: needs_processing_def)
  show "zip_cache (fst (render_image_converter lib fd fe w (Some s))) = Map.empty"
    if "uploaded_files w \<noteq> [] \<and> needs_processing w s"
    using that render_reset(1) by blast
  show "\<forall>shown built zip_data file_name.
          snd (render_image_converter lib fd fe w (Some s)) \<noteq>
            Results shown built zip_data file_name"
    if "uploaded_files w \<noteq> [] \<and> needs_processing w s"
    using that render_reset(2) by blast
  show "processed_images (fst (render_image_converter lib fd fe w (Some s))) =
            (if convert_clicked w
             then (case process_images_parallel lib (uploaded_files w) fd of
                     Some (Inr images) \<Rightarrow> Some images
                   | Some (Inl e) \<Rightarrow> None
                   | None \<Rightarrow> None)
             else None)"
    if "uploaded_files w \<noteq> [] \<and> needs_processing w s"
    using that
    by (simp add: render_image_converter_def Let_def split: option.splits sum.splits)
  show "snd (render_image_converter lib fd fe w (Some s)) = ReadyToConvert"
    if "uploaded_files w \<noteq> [] \<and> needs_processing w s" "\<not> convert_clicked w"
    using that by (simp add: render_reset_no_click)
  show "dom (zip_cache (fst (render_image_converter lib fd fe w (Some s)))) \<subseteq>
          {f. last_format (fst (render_image_converter lib fd fe w (Some s))) = Some f}"
    if "dom (zip_cache s) \<subseteq> {f. last_format s = Some f}"
    using that by (rule cache_within_last_format)
next
  assume a: "uploaded_files w \<noteq> [] \<and> \<not> needs_processing w s"
  then obtain imgs where imgs: "processed_images s = Some imgs"
    using not_needs_processing_batch by blast
  show "processed_images (fst (render_image_converter lib fd fe w (Some s))) =
      processed_images s"
    using a imgs by (auto simp: render_results zip_if_needed_def Let_def split: option.splits)
  show "\<forall>k \<in> dom (zip_cache s).
            zip_cache (fst (render_image_converter lib fd fe w (Some s))) k = zip_cache s k"
    using a imgs by (auto simp: render_results zip_if_needed_def Let_def split: option.splits)
  show "dom (zip_cache (fst (render_image_converter lib fd fe w (Some s)))) =
            insert (selected_format w) (dom (zip_cache s))"
    using a imgs by (auto simp: render_results zip_if_needed_def Let_def split: option.splits)
qed

text \<open>
  Claim C6, amended, in the example session with the cached \<^verbatim>\<open>WebP\<close> archive: a run without
  files, a run that selects \<^verbatim>\<open>PNG\<close> without a click, and a run that selects \<^verbatim>\<open>WebP\<close>
  again.
\<close>

theorem cache_reset_policy_witness:
  "fst (render_image_converter example_lib example_finish example_finish
          (example_request\<lparr>uploaded_files := []\<rparr>) (Some example_cached_session)) =
     example_cached_session
   \<and> uploaded_files (example_request\<lparr>selected_format := ''PNG''\<rparr>) \<noteq> []
   \<and> Some (selected_format (example_request\<lparr>selected_format := ''PNG''\<rparr>)) \<noteq>
       last_format example_cached_session
   \<and> \<not> convert_clicked (example_request\<lparr>selected_format := ''PNG''\<rparr>)
   \<and> needs_processing (example_request\<lparr>selected_format := ''PNG''\<rparr>) example_cached_session
   \<and> processed_images example_cached_session = Some example_images
   \<and> zip_cache (fst (render_image_converter example_lib example_finish example_finish
          (example_request\<lparr>selected_format := ''PNG''\<rparr>) (Some example_cached_session))) =
       Map.empty
   \<and> processed_images (fst (render_image_converter example_lib example_finish example_finish
          (example_request\<lparr>selected_format := ''PNG''\<rparr>) (Some example_cached_session))) = None
   \<and> snd (render_image_converter example_lib example_finish example_finish
          (example_request\<lparr>selected_format := ''PNG''\<rparr>) (Some example_cached_session)) =
       ReadyToConvert
   \<and> uploaded_files example_request \<noteq> []
   \<and> \<not> needs_processing example_request example_cached_session
   \<and> dom (zip_cache example_cached_session) = {''WebP''}
   \<and> dom (zip_cache example_cached_session) \<subseteq> {f. last_format example_cached_session = Some f}
   \<and> processed_images (fst (render_image_converter example_lib example_finish example_finish
          example_request (Some example_cached_session))) = Some example_images
   \<and> zip_cache (fst (render_image_converter example_lib example_finish example_finish
          example_request (Some example_cached_session))) ''WebP'' =
       zip_cache example_cached_session ''WebP''
   \<and> dom (zip_cache (fst (render_image_converter example_lib example_finish example_finish
          example_request (Some example_cached_session)))) = {''WebP''}"
proof -
  let ?png = "example_request\<lparr>selected_format := ''PNG''\<rparr>"
  have a: "uploaded_files (example_request\<lparr>uploaded_files := []\<rparr>) = []" by simp
  have b: "uploaded_files ?png \<noteq> []" using example_request_files by simp
  have c: "Some (selected_format ?png) \<noteq> last_format example_cached_session"
    by (simp add: example_cached example_converted)
  have d: "dom (zip_cache example_cached_session) = {''WebP''}"
    by (simp add: example_cached)
  have e: "dom (zip_cache example_cached_session) \<subseteq>
      {f. last_format example_cached_session = Some f}"
    by (simp add: example_cached example_converted)
  have f: "selected_format example_request = ''WebP''" by (simp add: example_request_def)
  have g: "\<not> convert_clicked ?png" by (simp add: example_request_def)
  have h: "processed_images example_cached_session = Some example_images"
    by (simp add: example_cached example_converted)
  from cache_reset_policy [of "example_request\<lparr>uploaded_files := []\<rparr>" example_lib
      example_finish example_finish example_cached_session]
    cache_reset_policy [of ?png example_lib example_finish example_finish example_cached_session]
    cache_reset_policy [of example_request example_lib example_finish example_finish
      example_cached_session]
  show ?thesis
    using a b c d e f g h example_request_files example_cached_current by auto
qed




end
